theory Spec2Isabelle
  imports Main "HOL-Library.Sublist" "HOL-Library.AList"
begin

section \<open>JavaScript values the installer handles\<close>

text \<open>
  Every error the commands raise is a plain \<open>Error\<close> carrying a message; the runtime adds
  \<open>TypeError\<close> when a property of \<open>null\<close> is read or a property of a primitive is
  written (the sources are ES modules, hence strict code).
\<close>

datatype error = Error string | TypeError string

text \<open>\<open>s.includes(sub)\<close>: \<open>sub\<close> occurs in \<open>s\<close> as a contiguous run of characters.\<close>

fun str_includes :: "string \<Rightarrow> string \<Rightarrow> bool" where
  "str_includes [] sub = (sub = [])"
| "str_includes (c # cs) sub = (prefix sub (c # cs) \<or> str_includes cs sub)"

text \<open>\<open>s.split('\n')\<close>: the empty string gives one empty line.\<close>

fun split_nl :: "string \<Rightarrow> string list" where
  "split_nl [] = [[]]"
| "split_nl (c # cs) =
     (if c = CHR 0x0A then [] # split_nl cs
      else (case split_nl cs of [] \<Rightarrow> [[c]] | l # ls \<Rightarrow> (c # l) # ls))"

text \<open>\<open>lines.join('\n')\<close>.\<close>

fun join_nl :: "string list \<Rightarrow> string" where
  "join_nl [] = []"
| "join_nl [l] = l"
| "join_nl (l # ls) = l @ CHR 0x0A # join_nl ls"

text \<open>\<open>xs.findIndex(p)\<close>; JavaScript's \<open>-1\<close> is \<open>None\<close>.\<close>

fun findIndex :: "('a \<Rightarrow> bool) \<Rightarrow> 'a list \<Rightarrow> nat option" where
  "findIndex p [] = None"
| "findIndex p (x # xs) =
     (if p x then Some 0 else map_option Suc (findIndex p xs))"

section \<open>templates/next-config.ts\<close>

text \<open>
  The lines of \<open>nextConfigWebpackTemplate\<close>. The template literal opens with a line
  break, so its first line is empty; \<open>\\\<close> in the literal is one backslash.
\<close>

definition nextConfigWebpackTemplate_lines :: "string list" where
  "nextConfigWebpackTemplate_lines =
   [ '''',
     ''webpack: (config) => {'',
     ''  // Add alias for @tx3'',
     ''  config.resolve.alias = {'',
     ''    ...config.resolve.alias,'',
     ''    '@tx3': './node_modules/.tx3','',
     ''  };'',
     '''',
     ''  // Configure webpack to handle TypeScript files in .tx3 directory'',
     ''  config.module.rules.push({'',
     ''    test: /'' @ [CHR 0x5C] @ ''.ts$/,'',
     ''    include: /node_modules'' @ [CHR 0x5C] @ ''/'' @ [CHR 0x5C] @ ''.tx3/,'',
     ''    use: ['',
     ''      {'',
     ''        loader: 'ts-loader','',
     ''        options: {'',
     ''          transpileOnly: true,'',
     ''          compilerOptions: {'',
     ''            module: 'esnext','',
     ''            target: 'es2017','',
     ''            moduleResolution: 'node','',
     ''            esModuleInterop: true,'',
     ''            allowSyntheticDefaultImports: true,'',
     ''            skipLibCheck: true,'',
     ''          },'',
     ''        },'',
     ''      },'',
     ''    ],'',
     ''  });'',
     '''',
     ''  return config;'',
     ''},'' ]"

definition nextConfigWebpackTemplate :: string where
  "nextConfigWebpackTemplate = join_nl nextConfigWebpackTemplate_lines"

text \<open>The module written when there is no configuration yet.\<close>

definition new_next_config :: string where
  "new_next_config =
     ''/** @type {import('next').NextConfig} */'' @ [CHR 0x0A] @
     ''const nextConfig = {'' @ [CHR 0x0A] @
     ''  '' @ nextConfigWebpackTemplate @ [CHR 0x0A] @
     ''};'' @ [CHR 0x0A] @
     [CHR 0x0A] @
     ''export default nextConfig;'' @ [CHR 0x0A]"

text \<open>
  \<open>nextConfigWebpackTemplate.split('\n').map(line => '  ' + line)\<close>: the block that is
  spliced in.
\<close>

definition webpackConfig :: "string list" where
  "webpackConfig = map (\<lambda>line. ''  '' @ line) (split_nl nextConfigWebpackTemplate)"

text \<open>The predicate of \<open>lines.findIndex\<close> in \<open>generateNextConfig\<close>.\<close>

definition is_config_start :: "string \<Rightarrow> bool" where
  "is_config_start line =
     (str_includes line ''const nextConfig'' \<or> str_includes line ''module.exports'')"

text \<open>
  The \<open>for\<close> loop of \<open>generateNextConfig\<close>, from line \<open>i\<close> on: \<open>ls\<close> are the lines
  \<open>i, i + 1, ...\<close>, \<open>braceCount\<close> and \<open>foundOpenBrace\<close> the loop's two variables. The result is
  \<open>insertIndex\<close>, \<open>None\<close> for the \<open>-1\<close> it keeps when the loop runs off the end.
\<close>

fun find_insert :: "string list \<Rightarrow> nat \<Rightarrow> int \<Rightarrow> bool \<Rightarrow> nat option" where
  "find_insert [] i braceCount foundOpenBrace = None"
| "find_insert (line # ls) i braceCount foundOpenBrace =
     (let opened = CHR ''{'' \<in> set line;
          foundOpenBrace1 = (opened \<or> foundOpenBrace);
          braceCount1 = (if opened then braceCount + int (count_list line CHR ''{'')
                         else braceCount)
      in if foundOpenBrace1
         then (let braceCount2 = braceCount1 - int (count_list line CHR ''}'')
               in if braceCount2 = 0 then Some i
                  else find_insert ls (Suc i) braceCount2 foundOpenBrace1)
         else find_insert ls (Suc i) braceCount1 foundOpenBrace1)"

text \<open>The three messages \<open>generateNextConfig\<close> throws.\<close>

definition webpack_conflict :: error where
  "webpack_conflict =
     Error ''Existing webpack configuration detected. Please manually merge the TX3 webpack configuration.''"

definition config_unparsable :: error where
  "config_unparsable = Error ''Could not parse existing Next.js configuration''"

definition no_insertion_point :: error where
  "no_insertion_point = Error ''Could not find insertion point in Next.js configuration''"

text \<open>
  \<open>generateNextConfig(existingConfig?)\<close>. \<open>None\<close> is the omitted argument; the test
  \<open>!existingConfig\<close> also holds for the empty string.
\<close>

definition generateNextConfig :: "string option \<Rightarrow> error + string" where
  "generateNextConfig existingConfig =
     (case existingConfig of
        None \<Rightarrow> Inr new_next_config
      | Some cfg \<Rightarrow>
          if cfg = [] then Inr new_next_config
          else if str_includes cfg ''webpack:''
          then Inl webpack_conflict
          else
            (let lines = split_nl cfg in
             case findIndex is_config_start lines of
               None \<Rightarrow> Inl config_unparsable
             | Some configObjectStart \<Rightarrow>
                 (case find_insert (drop configObjectStart lines) configObjectStart 0 False of
                    None \<Rightarrow> Inl no_insertion_point
                  | Some insertIndex \<Rightarrow>
                      Inr (join_nl (take insertIndex lines @ webpackConfig @
                                    drop insertIndex lines)))))"


subsection \<open>The merge as the specification words it\<close>

text \<open>
  The specification's \<open>mergeWebpackConfig\<close> on an existing text, written from its
  sentences and not from the loop: the object starts at the first line that declares the
  configuration variable or the module export; counting begins at the first line from
  there that holds an opening brace; \<open>running_count lines k i\<close> is the number of opening
  minus closing braces on lines \<open>k..i\<close>; the insertion point is the first line at which
  that count is back at zero; the block goes in front of that line.
\<close>

definition brace_balance :: "string list \<Rightarrow> int" where
  "brace_balance ls =
     (\<Sum>l\<leftarrow>ls. int (count_list l CHR ''{'') - int (count_list l CHR ''}''))"

definition running_count :: "string list \<Rightarrow> nat \<Rightarrow> nat \<Rightarrow> int" where
  "running_count lines k i = brace_balance (take (Suc i - k) (drop k lines))"

definition spec_insertion_point :: "string list \<Rightarrow> nat \<Rightarrow> nat option" where
  "spec_insertion_point lines s =
     (case find (\<lambda>i. CHR ''{'' \<in> set (lines ! i)) [s..<length lines] of
        None \<Rightarrow> None
      | Some k \<Rightarrow> find (\<lambda>i. running_count lines k i = 0) [k..<length lines])"

definition spec_mergeWebpackConfig :: "string \<Rightarrow> error + string" where
  "spec_mergeWebpackConfig cfg =
     (let lines = split_nl cfg in
      case find (\<lambda>i. is_config_start (lines ! i)) [0..<length lines] of
        None \<Rightarrow> Inl config_unparsable
      | Some s \<Rightarrow>
          (case spec_insertion_point lines s of
             None \<Rightarrow> Inl no_insertion_point
           | Some i \<Rightarrow> Inr (join_nl (take i lines @ webpackConfig @ drop i lines))))"

section \<open>JSON values and \<open>JSON.stringify\<close>\<close>

text \<open>
  The values \<open>JSON.parse\<close> builds and the merge mutates. A number is kept as the text
  \<open>Number::toString\<close> gives it (\<open>0\<close> for both zeros, \<open>Infinity\<close> for an overflowing
  literal): the code only tests numbers for truth and prints them. An array carries, next
  to its elements, the named properties assigned to it; an object lists its members in
  enumeration order. The tree has no sharing: \<open>JSON.parse\<close> creates none and every
  \<open>{}\<close> and \<open>[...]\<close> literal of the code is a fresh object.
\<close>

datatype json =
    JNull
  | JBool bool
  | JNum string
  | JStr string
  | JArr "json list" "(string \<times> json) list"
  | JObj "(string \<times> json) list"

text \<open>ToBoolean.\<close>

fun truthy :: "json \<Rightarrow> bool" where
  "truthy JNull = False"
| "truthy (JBool b) = b"
| "truthy (JNum n) = (n \<noteq> ''0'' \<and> n \<noteq> ''NaN'')"
| "truthy (JStr s) = (s \<noteq> [])"
| "truthy (JArr items props) = True"
| "truthy (JObj members) = True"

text \<open>
  \<open>JSON.stringify(value, null, 2)\<close>, after ECMA-262: \<open>QuoteJSONString\<close>, and
  \<open>SerializeJSONProperty\<close> with a gap of two spaces, \<open>indent\<close> being the number of
  spaces in front of the enclosing line. Named properties of an array are not printed.
\<close>

definition hex_digit :: "nat \<Rightarrow> char" where
  "hex_digit n = (if n < 10 then char_of (48 + n) else char_of (87 + n))"

fun quote_char :: "char \<Rightarrow> string" where
  "quote_char c =
     (if c = CHR 0x08 then [CHR 0x5C, CHR ''b'']
      else if c = CHR 0x09 then [CHR 0x5C, CHR ''t'']
      else if c = CHR 0x0A then [CHR 0x5C, CHR ''n'']
      else if c = CHR 0x0C then [CHR 0x5C, CHR ''f'']
      else if c = CHR 0x0D then [CHR 0x5C, CHR ''r'']
      else if c = CHR 0x22 then [CHR 0x5C, CHR 0x22]
      else if c = CHR 0x5C then [CHR 0x5C, CHR 0x5C]
      else if (of_char c :: nat) < 32
      then [CHR 0x5C, CHR ''u'', CHR ''0'', CHR ''0'',
            hex_digit (of_char c div 16), hex_digit (of_char c mod 16)]
      else [c])"

definition QuoteJSONString :: "string \<Rightarrow> string" where
  "QuoteJSONString s = CHR 0x22 # concat (map quote_char s) @ [CHR 0x22]"

fun join_with :: "string \<Rightarrow> string list \<Rightarrow> string" where
  "join_with sep [] = []"
| "join_with sep [x] = x"
| "join_with sep (x # xs) = x @ sep @ join_with sep xs"

definition wrap :: "char \<Rightarrow> char \<Rightarrow> nat \<Rightarrow> string list \<Rightarrow> string" where
  "wrap l r stepback partial =
     (if partial = [] then [l, r]
      else [l, CHR 0x0A] @ replicate (stepback + 2) CHR '' ''
           @ join_with ([CHR '','', CHR 0x0A] @ replicate (stepback + 2) CHR '' '') partial
           @ [CHR 0x0A] @ replicate stepback CHR '' '' @ [r])"

fun SerializeJSONProperty :: "nat \<Rightarrow> json \<Rightarrow> string"
  and SerializeJSONArray :: "nat \<Rightarrow> json list \<Rightarrow> string list"
  and SerializeJSONObject :: "nat \<Rightarrow> (string \<times> json) list \<Rightarrow> string list" where
  "SerializeJSONProperty indent JNull = ''null''"
| "SerializeJSONProperty indent (JBool b) = (if b then ''true'' else ''false'')"
| "SerializeJSONProperty indent (JNum n) =
     (if n = ''Infinity'' \<or> n = ''-Infinity'' \<or> n = ''NaN'' then ''null'' else n)"
| "SerializeJSONProperty indent (JStr s) = QuoteJSONString s"
| "SerializeJSONProperty indent (JArr items props) =
     wrap CHR ''['' CHR '']'' indent (SerializeJSONArray (indent + 2) items)"
| "SerializeJSONProperty indent (JObj members) =
     wrap CHR ''{'' CHR ''}'' indent (SerializeJSONObject (indent + 2) members)"
| "SerializeJSONArray indent [] = []"
| "SerializeJSONArray indent (v # vs) =
     SerializeJSONProperty indent v # SerializeJSONArray indent vs"
| "SerializeJSONObject indent [] = []"
| "SerializeJSONObject indent ((k, v) # members) =
     (QuoteJSONString k @ '': '' @ SerializeJSONProperty indent v)
     # SerializeJSONObject indent members"

definition JSON_stringify :: "json \<Rightarrow> string" where
  "JSON_stringify v = SerializeJSONProperty 0 v"

text \<open>
  What \<open>JSON.stringify\<close> shows of a value: the named properties of arrays are dropped and a
  number that is not finite is \<open>null\<close>.
\<close>

primrec visible :: "json \<Rightarrow> json" where
  "visible JNull = JNull"
| "visible (JBool b) = JBool b"
| "visible (JNum n) =
     (if n = ''Infinity'' \<or> n = ''-Infinity'' \<or> n = ''NaN'' then JNull else JNum n)"
| "visible (JStr s) = JStr s"
| "visible (JArr items props) = JArr (map visible items) []"
| "visible (JObj members) = JObj (map (map_prod id visible) members)"


text \<open>\<open>!x\<close>, with \<open>None\<close> for \<open>undefined\<close>.\<close>

definition js_not :: "json option \<Rightarrow> bool" where
  "js_not x = (case x of None \<Rightarrow> True | Some v \<Rightarrow> \<not> truthy v)"

text \<open>
  Reading and writing a property whose name no prototype defines (\<open>compilerOptions\<close>,
  \<open>paths\<close>, \<open>@tx3/*\<close>, \<open>@tx3\<close>): reading from \<open>null\<close> throws, reading from any other
  primitive gives \<open>undefined\<close>; writing to a primitive throws in strict code; writing to an
  object replaces the member in place or appends it; writing to an array sets a named
  property. The wording of the runtime's messages is abridged.
\<close>

definition quoted :: "string \<Rightarrow> string" where
  "quoted k = [CHR 0x27] @ k @ [CHR 0x27]"

fun get_prop :: "json \<Rightarrow> string \<Rightarrow> error + json option" where
  "get_prop JNull k =
     Inl (TypeError (''Cannot read properties of null (reading '' @ quoted k @ '')''))"
| "get_prop (JObj members) k = Inr (map_of members k)"
| "get_prop (JArr items props) k = Inr (map_of props k)"
| "get_prop v k = Inr None"

fun set_prop :: "json \<Rightarrow> string \<Rightarrow> json \<Rightarrow> error + json" where
  "set_prop JNull k x =
     Inl (TypeError (''Cannot set properties of null (setting '' @ quoted k @ '')''))"
| "set_prop (JObj members) k x = Inr (JObj (AList.update k x members))"
| "set_prop (JArr items props) k x = Inr (JArr items (AList.update k x props))"
| "set_prop v k x =
     Inl (TypeError (''Cannot create property '' @ quoted k @ '' on a primitive value''))"

text \<open>
  The mutation happens in place on objects reached from \<open>tsconfig\<close>; in the tree it is
  written back along the path, by \<open>put_prop\<close>, which cannot fail there.
\<close>

definition put_prop :: "json \<Rightarrow> string \<Rightarrow> json \<Rightarrow> json" where
  "put_prop v k x = (case set_prop v k x of Inl e \<Rightarrow> v | Inr v' \<Rightarrow> v')"

definition bind_err :: "error + 'a \<Rightarrow> ('a \<Rightarrow> error + 'b) \<Rightarrow> error + 'b" where
  "bind_err m f = (case m of Inl e \<Rightarrow> Inl e | Inr x \<Rightarrow> f x)"

definition undefined_read :: "string \<Rightarrow> error" where
  "undefined_read k =
     TypeError (''Cannot read properties of undefined (reading '' @ quoted k @ '')'')"

definition undefined_write :: "string \<Rightarrow> error" where
  "undefined_write k =
     TypeError (''Cannot set properties of undefined (setting '' @ quoted k @ '')'')"

text \<open>\<open>["./tx3/bindings/*"]\<close> and \<open>["./tx3/bindings"]\<close>.\<close>

definition tx3_glob_paths :: json where
  "tx3_glob_paths = JArr [JStr ''./tx3/bindings/*''] []"

definition tx3_paths :: json where
  "tx3_paths = JArr [JStr ''./tx3/bindings''] []"

text \<open>
  \<open>updateTsConfig\<close>, the statements between \<open>JSON.parse\<close> and \<open>JSON.stringify\<close>:
  \<open>if (!tsconfig.compilerOptions) tsconfig.compilerOptions = {}\<close>,
  \<open>if (!tsconfig.compilerOptions.paths) tsconfig.compilerOptions.paths = {}\<close>, and the two
  assignments to \<open>tsconfig.compilerOptions.paths[...]\<close>.
\<close>

definition tsconfig_merge :: "json \<Rightarrow> error + json" where
  "tsconfig_merge tsconfig =
     bind_err (get_prop tsconfig ''compilerOptions'') (\<lambda>c0.
     bind_err (if js_not c0 then set_prop tsconfig ''compilerOptions'' (JObj [])
               else Inr tsconfig) (\<lambda>tsconfig1.
     bind_err (get_prop tsconfig1 ''compilerOptions'') (\<lambda>c1.
       case c1 of
         None \<Rightarrow> Inl (undefined_read ''paths'')
       | Some compilerOptions \<Rightarrow>
     bind_err (get_prop compilerOptions ''paths'') (\<lambda>p0.
     bind_err (if js_not p0 then set_prop compilerOptions ''paths'' (JObj [])
               else Inr compilerOptions) (\<lambda>compilerOptions1.
     bind_err (get_prop compilerOptions1 ''paths'') (\<lambda>p1.
       case p1 of
         None \<Rightarrow> Inl (undefined_write ''@tx3/*'')
       | Some paths \<Rightarrow>
     bind_err (set_prop paths ''@tx3/*'' tx3_glob_paths) (\<lambda>paths1.
     bind_err (set_prop paths1 ''@tx3'' tx3_paths) (\<lambda>paths2.
       Inr (put_prop tsconfig1 ''compilerOptions''
              (put_prop compilerOptions1 ''paths'' paths2))))))))))"

text \<open>
  \<open>updateTsConfig\<close> from the text read to the text written. \<open>JSON.parse\<close> belongs to the
  runtime and is a parameter: \<open>None\<close> when it throws.
\<close>

definition tsconfig_text :: "(string \<Rightarrow> json option) \<Rightarrow> string \<Rightarrow> error + string" where
  "tsconfig_text JSON_parse existingContent =
     (case JSON_parse existingContent of
        None \<Rightarrow> Inl (Error ''Failed to parse tsconfig.json'')
      | Some tsconfig \<Rightarrow>
          bind_err (tsconfig_merge tsconfig) (\<lambda>merged. Inr (JSON_stringify merged)))"

text \<open>
  For stating what the merge does: a member that is absent, falsy or an object, and the
  members of an object (none otherwise).
\<close>

definition object_or_falsy :: "json option \<Rightarrow> bool" where
  "object_or_falsy x = (case x of None \<Rightarrow> True | Some (JObj ms) \<Rightarrow> True | Some v \<Rightarrow> \<not> truthy v)"

definition members_of :: "json option \<Rightarrow> (string \<times> json) list" where
  "members_of x = (case x of Some (JObj ms) \<Rightarrow> ms | _ \<Rightarrow> [])"

section \<open>The project directory, the console and the outside world\<close>

type_synonym path = string

text \<open>
  \<open>BackupEntry\<close> of \<open>utils/file-utils\<close>, with the three fields the specification lists.
\<close>

record BackupEntry =
  originalPath :: path
  backupPath :: path
  existedBefore :: bool

text \<open>
  What a command prints: \<open>console.log\<close>, \<open>console.error\<close> and the four calls on the
  spinner. Colours, emoji and the bullet character are left out of the texts.
\<close>

datatype event =
    Log string
  | LogError string
  | SpinnerStart string
  | SpinnerSucceed string
  | SpinnerFail string
  | SpinnerWarn string

text \<open>
  The state a command runs in and changes: the regular files with their bytes and the
  directories, both keyed by the path from the directory the process was started in; the
  current working directory below it (empty at the start, changed by \<open>process.chdir\<close>);
  the console output so far; and \<open>backups\<close>, the array of \<open>installCommand\<close>.
\<close>

record state =
  files :: "path \<rightharpoonup> string"
  dirs :: "path set"
  cwd :: path
  console :: "event list"
  backups :: "BackupEntry list"

record ValidationResult =
  isValid :: bool
  errors :: "string list"
  warnings :: "string list"

text \<open>
  Every call that can raise for a reason outside the program (the file system, a child
  process) has a name; no name is used twice in one run.
\<close>

datatype site =
    EnsureBackupDir
  | BackupFile path
  | RestoreFromBackup path
  | ReadFile path
  | WriteFile path
  | CreateDirectory path
  | RemoveDirectory path
  | GetMissingPackages bool
  | InstallPackages bool
  | AddScripts
  | WritePackageJson
  | InstallTrix
  | CopyDevnetFolder
  | ReadPackageJson
  | WriteDevnetScript
  | MkdirProject
  | RunShadcn

text \<open>
  What a run takes from outside. \<open>fails\<close> says which calls raise, and with what;
  \<open>JSON_parse\<close> is the runtime's parser; the validators, the prompts' answers, the
  package manager, the external installers and the scaffolding tool are collaborators
  whose code is not part of the sources verified here, as are the three templates
  written by \<open>createTx3Files\<close>.
\<close>

record env =
  fails :: "site \<Rightarrow> error option"
  JSON_parse :: "string \<Rightarrow> json option"
  validateNextJsProject :: "state \<Rightarrow> ValidationResult"
  validateFreshProject :: "state \<Rightarrow> ValidationResult"
  answer_name :: string
  answer_confirmInit :: bool
  answer_proceed :: bool
  answer_shouldInstallTrix :: bool
  answer_shouldIncludeDevnet :: bool
  answer_confirmInstall :: bool
  getMissingPackages :: "state \<Rightarrow> string list \<Rightarrow> string list"
  package_manager :: "string list \<Rightarrow> bool \<Rightarrow> (path \<rightharpoonup> string) \<Rightarrow> (path \<rightharpoonup> string)"
  addScripts_text :: "(string \<times> string) list \<Rightarrow> string \<Rightarrow> string"
  checkTrixInstalled :: bool
  devnet_bundle :: "(path \<times> string) list"
  shadcn_files :: "(path \<times> string) list"
  trixTomlTemplate :: string
  mainTx3Template :: string
  generateScriptTemplate :: string

text \<open>How a command ends: it returns, it throws (its promise rejects), or it calls
  \<open>process.exit\<close>.\<close>

datatype outcome = Returned | Thrown error | Exited nat

text \<open>
  Modelled from the spec: the entry point of the CLI is not among the sources; the
  specification's exit codes are 0 on success or cancellation and non-zero on a failure,
  which is also what the runtime does with a rejected promise nobody handles.
\<close>

fun exit_code :: "outcome \<Rightarrow> nat" where
  "exit_code Returned = 0"
| "exit_code (Thrown e) = 1"
| "exit_code (Exited n) = n"

text \<open>\<open>error.message\<close> and \<open>`${error}`\<close>.\<close>

fun message :: "error \<Rightarrow> string" where
  "message (Error m) = m"
| "message (TypeError m) = m"

fun error_string :: "error \<Rightarrow> string" where
  "error_string (Error m) = ''Error: '' @ m"
| "error_string (TypeError m) = ''TypeError: '' @ m"

subsection \<open>Steps and \<open>try\<close> blocks\<close>

text \<open>
  A statement takes the state and gives the state it leaves, with the error if it threw.
  \<open>seq\<close> runs statements in order up to the first that throws, as the body of a
  \<open>try\<close> does.
\<close>

type_synonym step = "state \<Rightarrow> error option \<times> state"

fun seq :: "step list \<Rightarrow> step" where
  "seq [] s = (None, s)"
| "seq (st # sts) s =
     (case st s of (Some e, s') \<Rightarrow> (Some e, s') | (None, s') \<Rightarrow> seq sts s')"

definition print :: "event \<Rightarrow> state \<Rightarrow> state" where
  "print e s = s\<lparr>console := console s @ [e]\<rparr>"

definition prints :: "event list \<Rightarrow> state \<Rightarrow> state" where
  "prints es s = s\<lparr>console := console s @ es\<rparr>"

definition emit :: "event \<Rightarrow> step" where
  "emit e s = (None, print e s)"

definition skip :: step where
  "skip s = (None, s)"

text \<open>A call that raises when the outside says so and otherwise has its effect.\<close>

definition raise_at :: "env \<Rightarrow> site \<Rightarrow> (state \<Rightarrow> state) \<Rightarrow> step" where
  "raise_at E site effect s =
     (case fails E site of Some e \<Rightarrow> (Some e, s) | None \<Rightarrow> (None, effect s))"

text \<open>
  \<open>if (spinner) spinner.start(text) else console.log(text)\<close> and its siblings;
  \<open>install.ts\<close> always has a spinner.
\<close>

definition progress_start :: "bool \<Rightarrow> string \<Rightarrow> step" where
  "progress_start spinner text = emit (if spinner then SpinnerStart text else Log text)"

definition progress_succeed :: "bool \<Rightarrow> string \<Rightarrow> step" where
  "progress_succeed spinner text = emit (if spinner then SpinnerSucceed text else Log text)"

definition progress_warn :: "bool \<Rightarrow> string \<Rightarrow> step" where
  "progress_warn spinner text = emit (if spinner then SpinnerWarn text else Log text)"

definition progress_fail :: "bool \<Rightarrow> string \<Rightarrow> state \<Rightarrow> state" where
  "progress_fail spinner text = print (if spinner then SpinnerFail text else Log text)"

subsection \<open>\<open>utils/file-utils\<close>\<close>

text \<open>
  Modelled from the spec: \<open>FileUtils\<close> is not among the sources. Paths are taken from the
  current working directory, as the runtime's file functions do; without that
  \<open>installCommand\<close> could not work in the directory \<open>initCommand\<close> has changed into.
  The backup area is the hidden directory \<open>.tx3-backup\<close> the README names, and a file's
  copy lives there under its relative path. \<open>backupFile\<close> and \<open>restoreFromBackup\<close> follow
  section 4.3 of the specification. A call that raises leaves the state as it was.
\<close>

definition below :: "path \<Rightarrow> path \<Rightarrow> path" where
  "below c p = (if c = [] then p else c @ ''/'' @ p)"

definition resolve :: "state \<Rightarrow> path \<Rightarrow> path" where
  "resolve s p = below (cwd s) p"

definition fileExists :: "state \<Rightarrow> path \<Rightarrow> bool" where
  "fileExists s p = (files s (resolve s p) \<noteq> None)"

definition directoryExists :: "state \<Rightarrow> path \<Rightarrow> bool" where
  "directoryExists s p = (resolve s p \<in> dirs s)"

definition backup_area :: path where
  "backup_area = ''.tx3-backup''"

definition backup_path_of :: "path \<Rightarrow> path" where
  "backup_path_of p = backup_area @ ''/'' @ p"

definition ensureBackupDir :: "env \<Rightarrow> step" where
  "ensureBackupDir E =
     raise_at E EnsureBackupDir (\<lambda>s. s\<lparr>dirs := insert (resolve s backup_area) (dirs s)\<rparr>)"

definition no_such_file :: "path \<Rightarrow> error" where
  "no_such_file p = Error (''ENOENT: no such file or directory, open '' @ quoted p)"

definition backupFile :: "env \<Rightarrow> path \<Rightarrow> state \<Rightarrow> (error + BackupEntry) \<times> state" where
  "backupFile E p s =
     (case fails E (BackupFile p) of
        Some e \<Rightarrow> (Inl e, s)
      | None \<Rightarrow>
          (case files s (resolve s p) of
             Some bytes \<Rightarrow>
               (Inr \<lparr>originalPath = p, backupPath = backup_path_of p, existedBefore = True\<rparr>,
                s\<lparr>files := (files s)(resolve s (backup_path_of p) \<mapsto> bytes)\<rparr>)
           | None \<Rightarrow>
               (Inr \<lparr>originalPath = p, backupPath = backup_path_of p, existedBefore = False\<rparr>,
                s)))"

definition restoreFromBackup :: "env \<Rightarrow> BackupEntry \<Rightarrow> step" where
  "restoreFromBackup E entry s =
     (case fails E (RestoreFromBackup (originalPath entry)) of
        Some e \<Rightarrow> (Some e, s)
      | None \<Rightarrow>
          if existedBefore entry
          then (case files s (resolve s (backupPath entry)) of
                  None \<Rightarrow> (Some (no_such_file (backupPath entry)), s)
                | Some bytes \<Rightarrow>
                    (None, s\<lparr>files := (files s)(resolve s (originalPath entry) \<mapsto> bytes)\<rparr>))
          else (None, s\<lparr>files := (files s)(resolve s (originalPath entry) := None)\<rparr>))"

definition readFile :: "env \<Rightarrow> path \<Rightarrow> state \<Rightarrow> error + string" where
  "readFile E p s =
     (case fails E (ReadFile p) of
        Some e \<Rightarrow> Inl e
      | None \<Rightarrow> (case files s (resolve s p) of None \<Rightarrow> Inl (no_such_file p) | Some c \<Rightarrow> Inr c))"

definition writeFile :: "env \<Rightarrow> path \<Rightarrow> string \<Rightarrow> step" where
  "writeFile E p content =
     raise_at E (WriteFile p) (\<lambda>s. s\<lparr>files := (files s)(resolve s p \<mapsto> content)\<rparr>)"

definition createDirectory :: "env \<Rightarrow> path \<Rightarrow> step" where
  "createDirectory E p =
     raise_at E (CreateDirectory p) (\<lambda>s. s\<lparr>dirs := insert (resolve s p) (dirs s)\<rparr>)"

definition beneath :: "path \<Rightarrow> path \<Rightarrow> bool" where
  "beneath d p = (p = d \<or> prefix (d @ ''/'') p)"

definition removeDirectory :: "env \<Rightarrow> path \<Rightarrow> step" where
  "removeDirectory E p =
     raise_at E (RemoveDirectory p)
       (\<lambda>s. s\<lparr>files := (\<lambda>q. if beneath (resolve s p) q then None else files s q),
              dirs := {d \<in> dirs s. \<not> beneath (resolve s p) d}\<rparr>)"


subsection \<open>\<open>utils/package-utils\<close>, the external installers\<close>

text \<open>
  Modelled from the spec: \<open>PackageUtils\<close>, \<open>TrixInstaller\<close> and \<open>DevnetInstaller\<close> are
  not among the sources. \<open>detectPackageManager\<close> follows section 4.1. The package manager
  is an external command: what it does to the files is the outside's, and it is done
  whether or not the command then fails. \<open>addScripts\<close> reads \<open>package.json\<close> and gives the
  document to write, \<open>writePackageJson\<close> writes it; the text is the outside's
  \<open>addScripts_text\<close> of the text read. Installing trix touches nothing in the project.
  \<open>copyDevnetFolder\<close> puts the bundle's files under the directory named.
\<close>

definition detectPackageManager :: "state \<Rightarrow> string" where
  "detectPackageManager s =
     (if fileExists s ''pnpm-lock.yaml'' then ''pnpm''
      else if fileExists s ''yarn.lock'' then ''yarn''
      else ''npm'')"

definition installPackages :: "env \<Rightarrow> string list \<Rightarrow> bool \<Rightarrow> step" where
  "installPackages E packages dev s =
     (fails E (InstallPackages dev), s\<lparr>files := package_manager E packages dev (files s)\<rparr>)"

definition addScripts :: "env \<Rightarrow> (string \<times> string) list \<Rightarrow> state \<Rightarrow> error + string" where
  "addScripts E scripts s =
     (case fails E AddScripts of
        Some e \<Rightarrow> Inl e
      | None \<Rightarrow>
          (case files s (resolve s ''package.json'') of
             None \<Rightarrow> Inl (no_such_file ''package.json'')
           | Some c \<Rightarrow> Inr (addScripts_text E scripts c)))"

definition writePackageJson :: "env \<Rightarrow> string \<Rightarrow> step" where
  "writePackageJson E packageJson =
     raise_at E WritePackageJson
       (\<lambda>s. s\<lparr>files := (files s)(resolve s ''package.json'' \<mapsto> packageJson)\<rparr>)"

definition TrixInstaller_installTrix :: "env \<Rightarrow> step" where
  "TrixInstaller_installTrix E = raise_at E InstallTrix (\<lambda>s. s)"

fun write_all :: "(path \<times> string) list \<Rightarrow> (path \<rightharpoonup> string) \<Rightarrow> (path \<rightharpoonup> string)" where
  "write_all [] fs = fs"
| "write_all ((p, c) # pcs) fs = write_all pcs (fs(p \<mapsto> c))"

definition copyDevnetFolder :: "env \<Rightarrow> path \<Rightarrow> step" where
  "copyDevnetFolder E target =
     raise_at E CopyDevnetFolder
       (\<lambda>s. s\<lparr>dirs := insert (resolve s target) (dirs s),
              files := write_all
                         (map (\<lambda>(p, c). (resolve s (target @ ''/'' @ p), c)) (devnet_bundle E))
                         (files s)\<rparr>)"

section \<open>commands/install.ts\<close>

record InstallOptions =
  dryRun :: bool
  force :: bool
  fresh :: bool
  verbose :: bool

definition requiredPackages :: "string list" where
  "requiredPackages = [''tx3-sdk'', ''tx3-trp'']"

definition requiredDevPackages :: "string list" where
  "requiredDevPackages = [''glob'', ''dotenv'', ''nodemon'', ''concurrently'']"

definition tx3_scripts :: "(string \<times> string) list" where
  \<open>tx3_scripts =
     [(''tx3:generate'', ''node scripts/generate-tx3.mjs''),
      (''watch:tx3'', ''nodemon --watch tx3 --ext tx3 --exec "npm run tx3:generate"''),
      (''dev'', ''concurrently "next dev --turbopack" "npm run watch:tx3"'')]\<close>

text \<open>\<open>updateTsConfig\<close>.\<close>

definition updateTsConfig :: "env \<Rightarrow> step" where
  "updateTsConfig E s =
     (if \<not> fileExists s ''tsconfig.json'' then (Some (Error ''tsconfig.json not found''), s)
      else
        (case readFile E ''tsconfig.json'' s of
           Inl e \<Rightarrow> (Some e, s)
         | Inr existingContent \<Rightarrow>
             (case tsconfig_text (JSON_parse E) existingContent of
                Inl e \<Rightarrow> (Some e, s)
              | Inr text \<Rightarrow> writeFile E ''tsconfig.json'' text s)))"

text \<open>\<open>createTx3Files\<close>.\<close>

definition createTx3Files :: "env \<Rightarrow> step" where
  "createTx3Files E =
     seq [createDirectory E ''tx3'',
          createDirectory E ''scripts'',
          writeFile E ''tx3/trix.toml'' (trixTomlTemplate E),
          writeFile E ''tx3/main.tx3'' (mainTx3Template E),
          writeFile E ''scripts/generate-tx3.mjs'' (generateScriptTemplate E)]"

text \<open>
  The statements of the \<open>try\<close> block of \<open>installCommand\<close>, in the order of the source.
  First the backup: \<open>filesToBackup\<close> is computed before the loop that fills \<open>backups\<close>.
\<close>

fun backup_loop :: "env \<Rightarrow> path list \<Rightarrow> step" where
  "backup_loop E [] s = (None, s)"
| "backup_loop E (file # rest) s =
     (case backupFile E file s of
        (Inl e, s') \<Rightarrow> (Some e, s')
      | (Inr entry, s') \<Rightarrow> backup_loop E rest (s'\<lparr>backups := backups s' @ [entry]\<rparr>))"

definition backup_files :: "env \<Rightarrow> step" where
  "backup_files E s =
     (let filesToBackup = filter (fileExists s) [''package.json'', ''tsconfig.json'']
      in backup_loop E filesToBackup s)"

definition create_backup :: "env \<Rightarrow> bool \<Rightarrow> step" where
  "create_backup E spinner =
     seq [progress_start spinner ''Creating backup...'',
          ensureBackupDir E,
          backup_files E,
          progress_succeed spinner ''Backup created'']"

definition install_missing :: "env \<Rightarrow> step" where
  "install_missing E s =
     (case fails E (GetMissingPackages False) of
        Some e \<Rightarrow> (Some e, s)
      | None \<Rightarrow>
          (let missingPackages = getMissingPackages E s requiredPackages in
           case fails E (GetMissingPackages True) of
             Some e \<Rightarrow> (Some e, s)
           | None \<Rightarrow>
               (let missingDevPackages = getMissingPackages E s requiredDevPackages in
                seq [if missingPackages \<noteq> [] then installPackages E missingPackages False
                     else skip,
                     if missingDevPackages \<noteq> [] then installPackages E missingDevPackages True
                     else skip] s)))"

definition install_packages :: "env \<Rightarrow> bool \<Rightarrow> step" where
  "install_packages E spinner =
     seq [progress_start spinner ''Installing TX3 packages...'',
          install_missing E,
          progress_succeed spinner ''TX3 packages installed'']"

definition update_typescript :: "env \<Rightarrow> bool \<Rightarrow> step" where
  "update_typescript E spinner =
     seq [progress_start spinner ''Updating TypeScript configuration...'',
          updateTsConfig E,
          progress_succeed spinner ''TypeScript configuration updated'']"

definition write_scripts :: "env \<Rightarrow> step" where
  "write_scripts E s =
     (case addScripts E tx3_scripts s of
        Inl e \<Rightarrow> (Some e, s)
      | Inr packageJson \<Rightarrow> writePackageJson E packageJson s)"

definition add_scripts :: "env \<Rightarrow> bool \<Rightarrow> step" where
  "add_scripts E spinner =
     seq [progress_start spinner ''Adding TX3 scripts...'',
          write_scripts E,
          progress_succeed spinner ''TX3 scripts added'']"

definition create_files :: "env \<Rightarrow> bool \<Rightarrow> step" where
  "create_files E spinner =
     seq [progress_start spinner ''Creating TX3 files...'',
          createTx3Files E,
          progress_succeed spinner ''TX3 files created'']"

definition completed :: step where
  \<open>completed s =
     (None, prints [Log ''TX3 installation completed successfully!'',
                    Log [],
                    Log ''Next steps:'',
                    Log ''1. Update tx3/trix.toml with your configuration'',
                    Log ''2. Add your TX3 code to tx3/main.tx3'',
                    Log ''3. Run "npm run dev" to start development with TX3''] s)\<close>

text \<open>
  The \<open>catch\<close> block: the failure is reported, then every entry of \<open>backups\<close> is restored,
  an entry that cannot be restored being reported without ending the loop.
\<close>

fun restore_all :: "env \<Rightarrow> BackupEntry list \<Rightarrow> state \<Rightarrow> state" where
  "restore_all E [] s = s"
| "restore_all E (backup # rest) s =
     (case restoreFromBackup E backup s of
        (None, s') \<Rightarrow> restore_all E rest s'
      | (Some rollbackError, s') \<Rightarrow>
          restore_all E rest
            (print (LogError (''Failed to restore '' @ originalPath backup @ '': ''
                              @ error_string rollbackError)) s'))"

definition rollback :: "env \<Rightarrow> bool \<Rightarrow> error \<Rightarrow> state \<Rightarrow> state" where
  "rollback E spinner error s =
     (let s1 = progress_fail spinner ''Installation failed'' s;
          s2 = print (LogError (''Error: '' @ message error)) s1;
          s3 = print (Log ''Rolling back changes...'') s2;
          s4 = restore_all E (backups s3) s3
      in print (Log ''Rollback completed'') s4)"

text \<open>\<open>showDryRunPreview\<close> of \<open>install.ts\<close>; it asks for the missing packages and writes
  nothing.\<close>

definition preview_tail :: "event list" where
  \<open>preview_tail =
     [Log [],
      Log ''Scripts to add to package.json:'',
      Log ''  * tx3:generate: node scripts/generate-tx3.mjs'',
      Log ''  * watch:tx3: nodemon --watch tx3 --ext tx3 --exec "npm run tx3:generate"'',
      Log ''  * dev: concurrently "next dev --turbopack" "npm run watch:tx3"'',
      Log [],
      Log ''Files to create:'',
      Log ''  * tx3/trix.toml'',
      Log ''  * tx3/main.tx3'',
      Log ''  * scripts/generate-tx3.mjs'',
      Log [],
      Log ''Configuration changes:'',
      Log ''  * Update tsconfig.json with TX3 path mappings'']\<close>

definition preview_packages :: "env \<Rightarrow> step" where
  "preview_packages E s =
     (let s1 = print (Log ''Packages to install:'') s in
      case fails E (GetMissingPackages False) of
        Some e \<Rightarrow> (Some e, s1)
      | None \<Rightarrow>
          (let missingPackages = getMissingPackages E s1 requiredPackages in
           case fails E (GetMissingPackages True) of
             Some e \<Rightarrow> (Some e, s1)
           | None \<Rightarrow>
               (let missingDevPackages = getMissingPackages E s1 requiredDevPackages in
                (None,
                 prints
                   ((if missingPackages = [] \<and> missingDevPackages = []
                     then [Log ''  * All required packages already installed'']
                     else map (\<lambda>pkg. Log (''  * '' @ pkg)) missingPackages
                          @ map (\<lambda>pkg. Log (''  * '' @ pkg @ '' (dev)'')) missingDevPackages)
                    @ preview_tail) s1))))"

definition showDryRunPreview :: "env \<Rightarrow> step" where
  "showDryRunPreview E =
     seq [emit (Log ''Changes that would be made:''), emit (Log []), preview_packages E]"

text \<open>
  The head of \<open>installCommand\<close>, shared by both revisions: validation, the warnings with
  the question they may raise, and the package manager's name. \<open>Inl\<close> is the command's
  outcome when it ends here, \<open>Inr\<close> the state it goes on with. The first message is
  printed by \<open>install.ts\<close> always and by the later revision unless \<open>verbose\<close> is set.
\<close>

definition validate_project ::
    "env \<Rightarrow> InstallOptions \<Rightarrow> bool \<Rightarrow> state \<Rightarrow> (outcome \<times> state) + state" where
  "validate_project E options announce s0 =
     (let s1 = (if announce then print (Log ''Checking Next.js project...'') s0 else s0);
          validation = (if fresh options then validateFreshProject E s1
                        else validateNextJsProject E s1)
      in if \<not> isValid validation
         then Inl (Thrown (Error ''Project validation failed''),
                   prints (LogError ''Project validation failed:''
                           # map (\<lambda>error. LogError (''  * '' @ error)) (errors validation)) s1)
         else
           (let s2 = (if warnings validation \<noteq> []
                      then prints (Log ''Warnings:''
                                   # map (\<lambda>warning. Log (''  * '' @ warning))
                                       (warnings validation)) s1
                      else s1)
            in if warnings validation \<noteq> [] \<and> \<not> force options
                  \<and> list_ex (\<lambda>w. str_includes w ''TX3 files already exist'') (warnings validation)
                  \<and> \<not> answer_proceed E
               then Inl (Returned, print (Log ''Installation cancelled.'') s2)
               else
                 Inr (prints
                        [Log (if fresh options then ''Fresh project ready for TX3 installation!''
                              else ''Next.js project detected!''),
                         Log (''Using package manager: '' @ detectPackageManager s2)] s2)))"

text \<open>\<open>installCommand\<close> of \<open>install.ts\<close>.\<close>

definition install_steps :: "env \<Rightarrow> step" where
  "install_steps E =
     seq [create_backup E True,
          install_packages E True,
          update_typescript E True,
          add_scripts E True,
          create_files E True,
          completed]"

definition installCommand :: "env \<Rightarrow> InstallOptions \<Rightarrow> state \<Rightarrow> outcome \<times> state" where
  "installCommand E options s0 =
     (case validate_project E options True s0 of
        Inl ended \<Rightarrow> ended
      | Inr s1 \<Rightarrow>
          if dryRun options
          then (case seq [emit (Log ''DRY RUN - No changes will be made''),
                          showDryRunPreview E] s1 of
                  (None, s2) \<Rightarrow> (Returned, s2)
                | (Some e, s2) \<Rightarrow> (Thrown e, s2))
          else if \<not> answer_confirmInstall E
          then (Returned, print (Log ''Installation cancelled.'') s1)
          else
            (case install_steps E (s1\<lparr>backups := []\<rparr>) of
               (None, s2) \<Rightarrow> (Returned, s2)
             | (Some error, s2) \<Rightarrow> (Exited 1, rollback E True error s2)))"


section \<open>The later revision of \<open>install.ts\<close>, with trix and the devnet\<close>

text \<open>
  The repository carries a second revision of \<open>installCommand\<close> (kept with the text of
  \<open>init.ts\<close>): it adds the \<open>verbose\<close> option, the installation of trix through tx3up
  before the backup and the devnet setup after the files, each in a \<open>try\<close> of its own.
\<close>

definition try_catch :: "step \<Rightarrow> (error \<Rightarrow> step) \<Rightarrow> step" where
  "try_catch body handler s =
     (case body s of (None, s') \<Rightarrow> (None, s') | (Some error, s') \<Rightarrow> handler error s')"

definition install_trix :: "env \<Rightarrow> bool \<Rightarrow> step" where
  "install_trix E spinner =
     seq [progress_start spinner ''Installing trix via tx3up...'',
          try_catch
            (seq [TrixInstaller_installTrix E, progress_succeed spinner ''trix installed successfully''])
            (\<lambda>error.
               seq [progress_warn spinner ''trix installation failed, but continuing with TX3 setup'',
                    emit (Log ''You can install trix manually later with: curl --proto '=https' --tlsv1.2 -LsSf https://github.com/tx3-lang/up/releases/latest/download/tx3up-installer.sh | sh && tx3up'')])]"

text \<open>\<open>setupDevnet\<close>.\<close>

definition add_devnet_script :: "env \<Rightarrow> step" where
  "add_devnet_script E s =
     (case fails E ReadPackageJson of
        Some e \<Rightarrow> (Some e, s)
      | None \<Rightarrow>
          (case files s (resolve s ''package.json'') of
             None \<Rightarrow> (Some (no_such_file ''package.json''), s)
           | Some c \<Rightarrow>
               raise_at E WriteDevnetScript
                 (\<lambda>s. s\<lparr>files := (files s)(resolve s ''package.json'' \<mapsto>
                          addScripts_text E [(''devnet:start'', ''cd devnet && dolos daemon'')] c)\<rparr>)
                 s))"

definition setupDevnet :: "env \<Rightarrow> step" where
  "setupDevnet E =
     try_catch (seq [copyDevnetFolder E ''devnet'', add_devnet_script E])
       (\<lambda>error s. (Some (Error (''Failed to setup devnet: '' @ message error)), s))"

definition setup_devnet :: "env \<Rightarrow> bool \<Rightarrow> step" where
  "setup_devnet E spinner =
     seq [progress_start spinner ''Setting up devnet configuration...'',
          try_catch
            (seq [setupDevnet E, progress_succeed spinner ''Devnet configuration created''])
            (\<lambda>error. progress_warn spinner ''Devnet setup failed, but continuing with installation'')]"

text \<open>
  The steps between the two, which both revisions have: a failure of one of them is
  caught only by the outer \<open>catch\<close>.
\<close>

definition critical_steps :: "env \<Rightarrow> bool \<Rightarrow> step" where
  "critical_steps E spinner =
     seq [create_backup E spinner,
          install_packages E spinner,
          update_typescript E spinner,
          add_scripts E spinner,
          create_files E spinner]"

definition install_steps_v2 :: "env \<Rightarrow> bool \<Rightarrow> bool \<Rightarrow> bool \<Rightarrow> step" where
  "install_steps_v2 E spinner installTrix includeDevnet =
     seq [if installTrix then install_trix E spinner else skip,
          critical_steps E spinner,
          if includeDevnet then setup_devnet E spinner else skip,
          completed]"

text \<open>
  The \<open>try\<close> statement of the later revision with its \<open>catch\<close> block, which is that of
  \<open>install.ts\<close>.
\<close>

definition try_install_v2 ::
    "env \<Rightarrow> bool \<Rightarrow> bool \<Rightarrow> bool \<Rightarrow> state \<Rightarrow> outcome \<times> state" where
  "try_install_v2 E spinner installTrix includeDevnet s =
     (case install_steps_v2 E spinner installTrix includeDevnet s of
        (None, s') \<Rightarrow> (Returned, s')
      | (Some error, s') \<Rightarrow> (Exited 1, rollback E spinner error s'))"

definition showDryRunPreview_v2 :: "env \<Rightarrow> step" where
  "showDryRunPreview_v2 E =
     seq [emit (Log ''Changes that would be made:''),
          emit (Log []),
          (\<lambda>s. (None,
                 if \<not> checkTrixInstalled E
                 then prints [Log ''trix installation:'',
                              Log ''  * Install tx3up installer'',
                              Log ''  * Run tx3up to install trix'',
                              Log []] s
                 else s)),
          (\<lambda>s. (None,
                 prints [Log ''devnet setup (will be prompted if trix available):'',
                         Log ''  * Copy devnet configuration files'',
                         Log ''  * Add devnet:start script to package.json'',
                         Log []] s)),
          preview_packages E]"

definition installCommand_v2 :: "env \<Rightarrow> InstallOptions \<Rightarrow> state \<Rightarrow> outcome \<times> state" where
  "installCommand_v2 E options s0 =
     (case validate_project E options (\<not> verbose options) s0 of
        Inl ended \<Rightarrow> ended
      | Inr s1 \<Rightarrow>
          if dryRun options
          then (case seq [emit (Log ''DRY RUN - No changes will be made''),
                          showDryRunPreview_v2 E] s1 of
                  (None, s2) \<Rightarrow> (Returned, s2)
                | (Some e, s2) \<Rightarrow> (Thrown e, s2))
          else
            (let installTrix = (\<not> verbose options \<and> \<not> checkTrixInstalled E
                                \<and> answer_shouldInstallTrix E);
                 s2 = (if \<not> verbose options \<and> checkTrixInstalled E
                       then print (Log ''trix is already installed'') s1 else s1);
                 includeDevnet = (\<not> verbose options \<and> (checkTrixInstalled E \<or> installTrix)
                                  \<and> answer_shouldIncludeDevnet E)
             in if \<not> answer_confirmInstall E
                then (Returned, print (Log ''Installation cancelled.'') s2)
                else try_install_v2 E (\<not> verbose options) installTrix includeDevnet
                       (s2\<lparr>backups := []\<rparr>)))"

section \<open>commands/init.ts\<close>

record InitOptions =
  projectName :: "string option"
  init_dryRun :: bool

text \<open>
  \<open>initializeShadcnProject\<close>: the directory is made, then the scaffolding tool runs in it.
  The tool is an external command: the files it writes are the outside's, written whether
  or not it then fails.
\<close>

definition mkdirSync :: "env \<Rightarrow> path \<Rightarrow> step" where
  "mkdirSync E p = raise_at E MkdirProject (\<lambda>s. s\<lparr>dirs := insert (resolve s p) (dirs s)\<rparr>)"

definition run_shadcn :: "env \<Rightarrow> path \<Rightarrow> step" where
  "run_shadcn E p s =
     (fails E RunShadcn,
      s\<lparr>files := write_all (map (\<lambda>(q, c). (resolve s (p @ ''/'' @ q), c)) (shadcn_files E))
                   (files s)\<rparr>)"

definition initializeShadcnProject :: "env \<Rightarrow> path \<Rightarrow> step" where
  "initializeShadcnProject E p =
     try_catch (seq [mkdirSync E p, run_shadcn E p])
       (\<lambda>error s. (Some (Error (''Failed to initialize shadcn project: '' @ message error)), s))"

text \<open>\<open>process.chdir\<close>; it throws when the directory is not there.\<close>

definition chdir :: "path \<Rightarrow> step" where
  "chdir p s =
     (if directoryExists s p then (None, s\<lparr>cwd := resolve s p\<rparr>)
      else (Some (Error (''ENOENT: no such file or directory, chdir '' @ quoted p)), s))"

definition showInitDryRunPreview :: "path \<Rightarrow> state \<Rightarrow> state" where
  "showInitDryRunPreview p =
     prints [Log ''Actions that would be taken:'',
             Log [],
             Log ''Project creation:'',
             Log (''  * Create directory: '' @ p),
             Log (''  * Run: npx shadcn@latest init -t next -y (in '' @ p @ '')''),
             Log ''  * This will create a new Next.js project with shadcn/ui'',
             Log (''  * Change to directory: '' @ p),
             Log [],
             Log ''TX3 installation:'',
             Log ''  * Install TX3 packages (tx3-sdk, tx3-trp)'',
             Log ''  * Install dev dependencies (glob, dotenv, nodemon, concurrently)'',
             Log ''  * Add TX3 scripts to package.json'',
             Log ''  * Update tsconfig.json with TX3 path mappings'',
             Log ''  * Create tx3/ directory and files'',
             Log ''  * Create scripts/generate-tx3.mjs'']"

text \<open>
  The \<open>catch\<close> block of \<open>initCommand\<close>: the report, the cleanup in a \<open>try\<close> of its own,
  and \<open>process.exit(1)\<close>.
\<close>

definition cleanup :: "env \<Rightarrow> path \<Rightarrow> step" where
  "cleanup E p s =
     (if p \<noteq> [] \<and> directoryExists s p
      then seq [emit (Log (''Cleaning up '' @ p @ ''...'')), removeDirectory E p] s
      else (None, s))"

definition init_failed :: "env \<Rightarrow> path \<Rightarrow> error \<Rightarrow> state \<Rightarrow> outcome \<times> state" where
  "init_failed E p error s =
     (let s1 = print (SpinnerFail ''Project initialization failed'') s;
          s2 = print (LogError (''Error: '' @ message error)) s1
      in case cleanup E p s2 of
           (None, s3) \<Rightarrow> (Exited 1, s3)
         | (Some cleanupError, s3) \<Rightarrow>
             (Exited 1, print (LogError (''Failed to cleanup: '' @ error_string cleanupError)) s3))"

text \<open>
  \<open>initCommand\<close>. When \<open>installCommand\<close> ends the process itself, nothing of
  \<open>initCommand\<close> runs after it.
\<close>

definition initCommand :: "env \<Rightarrow> InitOptions \<Rightarrow> state \<Rightarrow> outcome \<times> state" where
  "initCommand E options s0 =
     (let s1 = print (Log ''Initializing new Next.js project with TX3...'') s0;
          name = (case projectName options of
                    None \<Rightarrow> answer_name E
                  | Some n \<Rightarrow> if n = [] then answer_name E else n)
      in if directoryExists s1 name
         then (Exited 1,
               print (LogError (''Directory '' @ quoted name @ '' already exists'')) s1)
         else if init_dryRun options
         then (Returned,
               showInitDryRunPreview name
                 (print (Log ''DRY RUN - No changes will be made'') s1))
         else if \<not> answer_confirmInit E
         then (Returned, print (Log ''Initialization cancelled.'') s1)
         else
           (case seq [emit (SpinnerStart ''Creating Next.js project with shadcn/ui...''),
                      initializeShadcnProject E name,
                      emit (SpinnerSucceed ''Next.js project with shadcn/ui created''),
                      emit (Log (''Project created in: '' @ name)),
                      chdir name,
                      emit (SpinnerStart ''Installing TX3 capabilities...'')] s1 of
              (Some error, s2) \<Rightarrow> init_failed E name error s2
            | (None, s2) \<Rightarrow>
                (case installCommand E
                        \<lparr>dryRun = False, force = True, fresh = True, verbose = False\<rparr> s2 of
                   (Exited n, s3) \<Rightarrow> (Exited n, s3)
                 | (Thrown error, s3) \<Rightarrow> init_failed E name error s3
                 | (Returned, s3) \<Rightarrow>
                     (Returned,
                      prints [SpinnerSucceed ''TX3 capabilities installed'',
                              Log (''Project created successfully in '' @ quoted name @ ''!''),
                              Log [],
                              Log ''Next steps:'',
                              Log (''1. cd '' @ name),
                              Log ''2. Update tx3/trix.toml with your configuration'',
                              Log ''3. Add your TX3 code to tx3/main.tx3'',
                              Log ''4. Run \"npm run dev\" to start development''] s3))))"

section \<open>Sample documents and notions for the statements\<close>

text \<open>
  The scenario of the specification: a \<open>tsconfig.json\<close> with one path mapping of its own,
  as text and as the value \<open>JSON.parse\<close> gives for it, and the document the merge makes
  of it.
\<close>

definition scenario_text :: string where
  \<open>scenario_text = ''{"compilerOptions":{"paths":{"foo":["./foo"]}}}''\<close>

definition scenario_json :: json where
  "scenario_json =
     JObj [(''compilerOptions'',
            JObj [(''paths'', JObj [(''foo'', JArr [JStr ''./foo''] [])])])]"

definition scenario_merged :: json where
  "scenario_merged =
     JObj [(''compilerOptions'',
            JObj [(''paths'',
                   JObj [(''foo'', JArr [JStr ''./foo''] []),
                         (''@tx3/*'', JArr [JStr ''./tx3/bindings/*''] []),
                         (''@tx3'', JArr [JStr ''./tx3/bindings''] [])])])]"

definition empty_merged :: json where
  "empty_merged =
     JObj [(''compilerOptions'',
            JObj [(''paths'',
                   JObj [(''@tx3/*'', JArr [JStr ''./tx3/bindings/*''] []),
                         (''@tx3'', JArr [JStr ''./tx3/bindings''] [])])])]"

text \<open>
  A fragment of \<open>JSON.parse\<close> for the examples: the documents listed, each with the value
  the parser builds for it; the malformed text \<open>{\<close> used below is among the texts it
  rejects.
\<close>

definition sample_JSON_parse :: "string \<Rightarrow> json option" where
  "sample_JSON_parse =
     map_of [(''{}'', JObj []),
             (''null'', JNull),
             (scenario_text, scenario_json),
             (JSON_stringify scenario_merged, scenario_merged),
             (JSON_stringify empty_merged, empty_merged)]"

text \<open>
  A sample project and a sample outside for the examples: a directory with a
  \<open>package.json\<close> and a \<open>tsconfig.json\<close>; no call fails; the validator for existing
  projects asks for \<open>package.json\<close>; every prompt is answered with yes; both package lists
  are missing and the package manager leaves the files alone.
\<close>

definition sample_state :: state where
  "sample_state =
     \<lparr>files = map_of [(''package.json'', ''{}''), (''tsconfig.json'', ''{}'')],
      dirs = {}, cwd = [], console = [], backups = []\<rparr>"

definition sample_validator :: "state \<Rightarrow> ValidationResult" where
  "sample_validator s =
     (if fileExists s ''package.json''
      then \<lparr>isValid = True, errors = [], warnings = []\<rparr>
      else \<lparr>isValid = False, errors = [''package.json not found''], warnings = []\<rparr>)"

definition sample_env :: env where
  "sample_env =
     \<lparr>fails = (\<lambda>site. None),
      JSON_parse = sample_JSON_parse,
      validateNextJsProject = sample_validator,
      validateFreshProject = (\<lambda>s. \<lparr>isValid = True, errors = [], warnings = []\<rparr>),
      answer_name = ''app'',
      answer_confirmInit = True,
      answer_proceed = True,
      answer_shouldInstallTrix = True,
      answer_shouldIncludeDevnet = True,
      answer_confirmInstall = True,
      getMissingPackages = (\<lambda>s required. required),
      package_manager = (\<lambda>packages dev fs. fs),
      addScripts_text = (\<lambda>scripts content. ''{ scripts }''),
      checkTrixInstalled = False,
      devnet_bundle = [(''dolos.toml'', ''[upstream]'')],
      shadcn_files = [(''package.json'', ''{}''), (''tsconfig.json'', ''{}'')],
      trixTomlTemplate = ''[protocol]'',
      mainTx3Template = ''party Sender;'',
      generateScriptTemplate = ''// generate''\<rparr>"

text \<open>The sample project without any file, and with a \<open>package.json\<close> only.\<close>

definition empty_project :: state where
  "empty_project = sample_state\<lparr>files := Map.empty\<rparr>"

definition project_without_tsconfig :: state where
  "project_without_tsconfig = sample_state\<lparr>files := map_of [(''package.json'', ''{}'')]\<rparr>"

definition fail_at :: "site \<Rightarrow> site \<Rightarrow> error option" where
  "fail_at x site = (if site = x then Some (Error ''EIO'') else None)"

text \<open>The sample outside, except that writing \<open>tx3/main.tx3\<close> fails.\<close>

definition failing_env :: env where
  "failing_env = sample_env\<lparr>fails := fail_at (WriteFile ''tx3/main.tx3'')\<rparr>"

definition plain_options :: InstallOptions where
  "plain_options = \<lparr>dryRun = False, force = False, fresh = False, verbose = False\<rparr>"

text \<open>
  For the proofs about runs: a statement keeps a file when, started in the working
  directory \<open>c\<close>, it leaves the working directory, the array \<open>backups\<close> and the content at
  the relative path \<open>p\<close> as they are, whether it throws or not.
\<close>

definition keeps :: "path \<Rightarrow> path \<Rightarrow> step \<Rightarrow> bool" where
  "keeps c p st =
     (\<forall>s. cwd s = c \<longrightarrow>
          cwd (snd (st s)) = c \<and> backups (snd (st s)) = backups s
          \<and> files (snd (st s)) (resolve s p) = files s (resolve s p))"

text \<open>The package manager leaves the file at \<open>p\<close> below \<open>c\<close> alone.\<close>

definition package_manager_keeps :: "env \<Rightarrow> path \<Rightarrow> path \<Rightarrow> bool" where
  "package_manager_keeps E c p =
     (\<forall>packages dev fs.
        package_manager E packages dev fs (below c p) = fs (below c p))"

text \<open>
  The entries \<open>installCommand\<close> makes: for \<open>package.json\<close> or \<open>tsconfig.json\<close>, of a file
  that was there, with its copy in the backup area.
\<close>

definition install_entry :: "BackupEntry \<Rightarrow> bool" where
  "install_entry b =
     ((originalPath b = ''package.json'' \<or> originalPath b = ''tsconfig.json'')
      \<and> backupPath b = backup_path_of (originalPath b) \<and> existedBefore b)"

text \<open>A statement only adds to the console.\<close>

definition appends :: "step \<Rightarrow> bool" where
  "appends st = (\<forall>s. prefix (console s) (console (snd (st s))))"

text \<open>
  The sample outside with tx3up and the copy of the devnet bundle both failing, and with
  the installation of the packages failing.
\<close>

definition offline :: "site \<Rightarrow> error option" where
  "offline site =
     (if site = InstallTrix \<or> site = CopyDevnetFolder then Some (Error ''offline'') else None)"

definition offline_env :: env where
  "offline_env = sample_env\<lparr>fails := offline\<rparr>"

definition registry_down_env :: env where
  "registry_down_env = sample_env\<lparr>fails := fail_at (InstallPackages False)\<rparr>"

definition app_options :: InitOptions where
  "app_options = \<lparr>projectName = Some ''app'', init_dryRun = False\<rparr>"

text \<open>Objects and arrays, the values that take properties.\<close>

fun is_container :: "json \<Rightarrow> bool" where
  "is_container (JObj ms) = True"
| "is_container (JArr xs ps) = True"
| "is_container v = False"

text \<open>A document in which the two path mappings are in place.\<close>

definition has_tx3_paths :: "json \<Rightarrow> bool" where
  "has_tx3_paths v =
     (\<exists>c p. is_container v \<and> get_prop v ''compilerOptions'' = Inr (Some c) \<and> is_container c
        \<and> get_prop c ''paths'' = Inr (Some p) \<and> is_container p
        \<and> get_prop p ''@tx3/*'' = Inr (Some tx3_glob_paths)
        \<and> get_prop p ''@tx3'' = Inr (Some tx3_paths))"

section \<open>Verified properties\<close>

subsection \<open>Strings and the brace scan\<close>

lemma str_includes_iff: "str_includes s sub \<longleftrightarrow> (\<exists>p q. s = p @ sub @ q)"
proof (induction s)
  case Nil
  then show ?case by auto
next
  case (Cons c cs)
  show ?case
  proof
    assume "str_includes (c # cs) sub"
    then consider "prefix sub (c # cs)" | "str_includes cs sub" by auto
    then show "\<exists>p q. c # cs = p @ sub @ q"
    proof cases
      case 1
      then obtain q where "c # cs = sub @ q" by (auto simp: prefix_def)
      then have "c # cs = [] @ sub @ q" by simp
      then show ?thesis by blast
    next
      case 2
      with Cons.IH obtain p q where "cs = p @ sub @ q" by blast
      then have "c # cs = (c # p) @ sub @ q" by simp
      then show ?thesis by blast
    qed
  next
    assume "\<exists>p q. c # cs = p @ sub @ q"
    then obtain p q where pq: "c # cs = p @ sub @ q" by blast
    show "str_includes (c # cs) sub"
    proof (cases p)
      case Nil
      with pq have "prefix sub (c # cs)" by (simp add: prefix_def)
      then show ?thesis by simp
    next
      case (Cons a p')
      with pq have "cs = p' @ sub @ q" by simp
      with Cons.IH have "str_includes cs sub" by blast
      then show ?thesis by simp
    qed
  qed
qed

lemma find_map_option: "find P (map f xs) = map_option f (find (\<lambda>x. P (f x)) xs)"
  by (induction xs) auto

lemma find_Some_mem: "find P xs = Some x \<Longrightarrow> x \<in> set xs"
  by (induction xs) (auto split: if_splits)

lemma findIndex_find: "findIndex p xs = find (\<lambda>i. p (xs ! i)) [0..<length xs]"
proof (induction xs)
  case Nil
  then show ?case by simp
next
  case (Cons x xs)
  have "[0..<length (x # xs)] = 0 # map Suc [0..<length xs]"
    by (simp add: upt_conv_Cons map_Suc_upt del: upt_Suc)
  then show ?case using Cons.IH
    by (simp add: find_map_option del: upt_Suc)
qed

lemma find_insert_step:
  "find_insert (line # ls) i bc True =
     (let bc' = bc + (int (count_list line CHR ''{'') - int (count_list line CHR ''}''))
      in if bc' = 0 then Some i else find_insert ls (Suc i) bc' True)"
proof (cases "CHR ''{'' \<in> set line")
  case True
  then show ?thesis by (simp add: Let_def algebra_simps)
next
  case False
  then have "count_list line CHR ''{'' = 0" by (simp add: count_list_0_iff)
  with False show ?thesis by (simp add: Let_def algebra_simps)
qed

lemma find_insert_found:
  "find_insert ls i bc True =
     find (\<lambda>j. bc + brace_balance (take (Suc (j - i)) ls) = 0) [i..<i + length ls]"
proof (induction ls arbitrary: i bc)
  case Nil
  then show ?case by simp
next
  case (Cons line ls)
  let ?d = "int (count_list line CHR ''{'') - int (count_list line CHR ''}'')"
  have upt: "[i..<i + length (line # ls)] = i # [Suc i..<Suc i + length ls]"
    by (simp add: upt_conv_Cons del: upt_Suc)
  have tl: "find (\<lambda>j. bc + brace_balance (take (Suc (j - i)) (line # ls)) = 0)
              [Suc i..<Suc i + length ls]
          = find (\<lambda>j. (bc + ?d) + brace_balance (take (Suc (j - Suc i)) ls) = 0)
              [Suc i..<Suc i + length ls]"
  proof (rule find_cong[OF refl])
    fix j assume "j \<in> set [Suc i..<Suc i + length ls]"
    then have "Suc i \<le> j" by auto
    then have "Suc (j - i) = Suc (Suc (j - Suc i))" by simp
    then show "(bc + brace_balance (take (Suc (j - i)) (line # ls)) = 0)
             = (bc + ?d + brace_balance (take (Suc (j - Suc i)) ls) = 0)"
      by (simp add: brace_balance_def add.assoc)
  qed
  have hd: "(bc + brace_balance (take (Suc (i - i)) (line # ls)) = 0) = (bc + ?d = 0)"
    by (simp add: brace_balance_def)
  have "find (\<lambda>j. bc + brace_balance (take (Suc (j - i)) (line # ls)) = 0)
          [i..<i + length (line # ls)]
        = (if bc + ?d = 0 then Some i
           else find (\<lambda>j. (bc + ?d) + brace_balance (take (Suc (j - Suc i)) ls) = 0)
                  [Suc i..<Suc i + length ls])"
    unfolding upt find.simps hd tl by (rule refl)
  also have "\<dots> = (if bc + ?d = 0 then Some i else find_insert ls (Suc i) (bc + ?d) True)"
    by (simp only: Cons.IH)
  also have "\<dots> = find_insert (line # ls) i bc True"
    by (simp only: find_insert_step Let_def)
  finally show ?case by (rule sym)
qed

lemma find_insert_not_found:
  "find_insert ls i bc False =
     (case find (\<lambda>j. CHR ''{'' \<in> set (ls ! (j - i))) [i..<i + length ls] of
        None \<Rightarrow> None
      | Some open_line \<Rightarrow> find_insert (drop (open_line - i) ls) open_line bc True)"
proof (induction ls arbitrary: i)
  case Nil
  then show ?case by simp
next
  case (Cons line ls)
  have upt: "[i..<i + length (line # ls)] = i # [Suc i..<Suc i + length ls]"
    by (simp add: upt_conv_Cons del: upt_Suc)
  have tl: "find (\<lambda>j. CHR ''{'' \<in> set ((line # ls) ! (j - i))) [Suc i..<Suc i + length ls]
          = find (\<lambda>j. CHR ''{'' \<in> set (ls ! (j - Suc i))) [Suc i..<Suc i + length ls]"
  proof (rule find_cong[OF refl])
    fix j assume "j \<in> set [Suc i..<Suc i + length ls]"
    then have "Suc i \<le> j" by auto
    then have "j - i = Suc (j - Suc i)" by simp
    then show "(CHR ''{'' \<in> set ((line # ls) ! (j - i))) = (CHR ''{'' \<in> set (ls ! (j - Suc i)))"
      by simp
  qed
  show ?case
  proof (cases "CHR ''{'' \<in> set line")
    case True
    then show ?thesis unfolding upt by (simp add: Let_def)
  next
    case False
    have "find (\<lambda>j. CHR ''{'' \<in> set (ls ! (j - Suc i))) [Suc i..<Suc i + length ls] = Some k
          \<Longrightarrow> drop (k - i) (line # ls) = drop (k - Suc i) ls" for k
    proof -
      assume "find (\<lambda>j. CHR ''{'' \<in> set (ls ! (j - Suc i))) [Suc i..<Suc i + length ls] = Some k"
      then have "k \<in> set [Suc i..<Suc i + length ls]"
        by (rule find_Some_mem)
      then have "Suc i \<le> k" by auto
      then have "k - i = Suc (k - Suc i)" by simp
      then show ?thesis by simp
    qed
    with False show ?thesis unfolding upt
      using Cons.IH[of "Suc i"] tl
      by (auto simp: Let_def split: option.splits)
  qed
qed


lemma find_insert_spec:
  assumes "s \<le> length lines"
  shows "find_insert (drop s lines) s 0 False = spec_insertion_point lines s"
proof -
  have len: "s + length (drop s lines) = length lines" using assms by simp
  have op_eq: "find (\<lambda>j. CHR ''{'' \<in> set (drop s lines ! (j - s))) [s..<length lines]
               = find (\<lambda>i. CHR ''{'' \<in> set (lines ! i)) [s..<length lines]"
    by (rule find_cong[OF refl]) (use assms in auto)
  have cl_eq: "find_insert (drop (k - s) (drop s lines)) k 0 True
               = find (\<lambda>i. running_count lines k i = 0) [k..<length lines]"
    if "k \<in> set [s..<length lines]" for k
  proof -
    from that have k: "s \<le> k" "k < length lines" by auto
    then have d: "drop (k - s) (drop s lines) = drop k lines" by simp
    have l: "k + length (drop k lines) = length lines" using k by simp
    have "find_insert (drop k lines) k 0 True
        = find (\<lambda>j. 0 + brace_balance (take (Suc (j - k)) (drop k lines)) = 0) [k..<length lines]"
      unfolding find_insert_found l by (rule refl)
    also have "\<dots> = find (\<lambda>i. running_count lines k i = 0) [k..<length lines]"
      by (rule find_cong[OF refl]) (auto simp: running_count_def Suc_diff_le)
    finally show ?thesis unfolding d .
  qed
  show ?thesis
  proof (cases "find (\<lambda>i. CHR ''{'' \<in> set (lines ! i)) [s..<length lines]")
    case None
    then show ?thesis
      unfolding find_insert_not_found len op_eq spec_insertion_point_def by simp
  next
    case (Some k)
    then have "k \<in> set [s..<length lines]" by (rule find_Some_mem)
    then have "find_insert (drop (k - s) (drop s lines)) k 0 True
             = find (\<lambda>i. running_count lines k i = 0) [k..<length lines]"
      by (rule cl_eq)
    with Some show ?thesis
      unfolding find_insert_not_found len op_eq spec_insertion_point_def by simp
  qed
qed

lemma findIndex_bound: "findIndex p xs = Some i \<Longrightarrow> i < length xs"
  by (induction xs arbitrary: i) (auto split: if_splits)


lemma includes_nonempty: "str_includes cfg ''webpack:'' \<Longrightarrow> cfg \<noteq> []"
  by (cases cfg) auto

lemma conflict_when_included:
  "str_includes cfg ''webpack:'' \<Longrightarrow> generateNextConfig (Some cfg) = Inl webpack_conflict"
  by (simp add: generateNextConfig_def includes_nonempty)

lemma conflict_only_when_included:
  assumes "generateNextConfig existing = Inl webpack_conflict"
  shows "\<exists>cfg. existing = Some cfg \<and> str_includes cfg ''webpack:''"
proof (cases existing)
  case None
  with assms show ?thesis by (simp add: generateNextConfig_def)
next
  case (Some cfg)
  have ne: "config_unparsable \<noteq> webpack_conflict" "no_insertion_point \<noteq> webpack_conflict"
    by (simp_all add: config_unparsable_def no_insertion_point_def webpack_conflict_def)
  from assms Some ne have "str_includes cfg ''webpack:''"
    by (auto simp: generateNextConfig_def Let_def split: if_splits option.splits)
  with Some show ?thesis by simp
qed

subsection \<open>Claims about \<open>generateNextConfig\<close>\<close>

text \<open>
  C2. Whenever the existing configuration text contains \<open>webpack:\<close>, \<open>generateNextConfig\<close>
  fails with the error that asks for a manual merge (the specification's ConflictError; the
  source throws a plain \<open>Error\<close> with that message) and returns no text at all: the
  function is pure, so nothing is changed.
\<close>

theorem generateNextConfig_conflict:
  assumes "cfg = p @ ''webpack:'' @ q"
  shows "generateNextConfig (Some cfg) = Inl webpack_conflict
         \<and> (\<forall>out. generateNextConfig (Some cfg) \<noteq> Inr out)"
proof -
  from assms have "str_includes cfg ''webpack:''"
    unfolding str_includes_iff by blast
  then have "generateNextConfig (Some cfg) = Inl webpack_conflict"
    by (rule conflict_when_included)
  then show ?thesis by simp
qed

theorem generateNextConfig_conflict_witness:
  "generateNextConfig (Some ''const nextConfig = { webpack: (c) => c };'') = Inl webpack_conflict
   \<and> (\<forall>out. generateNextConfig (Some ''const nextConfig = { webpack: (c) => c };'') \<noteq> Inr out)"
  using generateNextConfig_conflict
          [of "''const nextConfig = { webpack: (c) => c };''" "''const nextConfig = { ''"
              "'' (c) => c };''"]
  by simp

text \<open>
  C3, as amended. For every non-empty existing text without \<open>webpack:\<close>, the loop of
  \<open>generateNextConfig\<close> computes what the specification describes
  (\<open>spec_mergeWebpackConfig\<close>): the first line with the variable declaration or the module
  export is the start, braces are counted line by line from the first line that opens one,
  the block is spliced in front of the first line where the count is back at zero, and a
  missing start or a count that never returns to zero gives an error (the specification's
  ParseError) and no text.
\<close>

theorem generateNextConfig_refines_spec:
  assumes "cfg \<noteq> []" and "\<not> str_includes cfg ''webpack:''"
  shows "generateNextConfig (Some cfg) = spec_mergeWebpackConfig cfg"
proof (cases "findIndex is_config_start (split_nl cfg)")
  case None
  with assms show ?thesis
    by (simp add: generateNextConfig_def spec_mergeWebpackConfig_def findIndex_find [symmetric])
next
  case (Some s)
  then have "s \<le> length (split_nl cfg)" by (auto dest: findIndex_bound)
  then have "find_insert (drop s (split_nl cfg)) s 0 False = spec_insertion_point (split_nl cfg) s"
    by (rule find_insert_spec)
  with assms Some show ?thesis
    by (simp add: generateNextConfig_def spec_mergeWebpackConfig_def findIndex_find [symmetric] Let_def)
qed

theorem generateNextConfig_refines_spec_witness:
  "join_nl [''const nextConfig = {'', ''  reactStrictMode: true,'', ''};''] \<noteq> []
   \<and> \<not> str_includes (join_nl [''const nextConfig = {'', ''  reactStrictMode: true,'', ''};''])
            ''webpack:''
   \<and> generateNextConfig
         (Some (join_nl [''const nextConfig = {'', ''  reactStrictMode: true,'', ''};'']))
       = spec_mergeWebpackConfig
           (join_nl [''const nextConfig = {'', ''  reactStrictMode: true,'', ''};''])"
  using generateNextConfig_refines_spec
          [of "join_nl [''const nextConfig = {'', ''  reactStrictMode: true,'', ''};'']"]
  by simp

text \<open>
  What the code returns on that text: the block stands between the last property and the
  line with the closing brace.
\<close>

lemma generateNextConfig_sample:
  "generateNextConfig
     (Some (join_nl [''const nextConfig = {'', ''  reactStrictMode: true,'', ''};'']))
   = Inr (join_nl ([''const nextConfig = {'', ''  reactStrictMode: true,''] @ webpackConfig
                   @ [''};'']))"
  by (simp add: generateNextConfig_def is_config_start_def)

text \<open>
  The claim as written covers every existing text without \<open>webpack:\<close>. The empty text is
  one: it has no start line, so the claim asks for an error, but \<open>!existingConfig\<close> holds
  for it and the code answers with a fresh configuration module.
\<close>

theorem generateNextConfig_empty_text_counterexample:
  "\<not> str_includes [] ''webpack:''
   \<and> findIndex is_config_start (split_nl []) = None
   \<and> spec_mergeWebpackConfig [] = Inl config_unparsable
   \<and> generateNextConfig (Some []) = Inr new_next_config"
  by (simp add: generateNextConfig_def spec_mergeWebpackConfig_def is_config_start_def)

text \<open>
  C9. The conflict error is raised exactly when the argument is a text in which the
  characters \<open>webpack:\<close> occur somewhere, wherever that is (a comment, a string, another
  property's value), and so never for a key written otherwise, such as \<open>webpack :\<close>.
\<close>

theorem conflict_detection_is_substring_test:
  "generateNextConfig existing = Inl webpack_conflict
   \<longleftrightarrow> (\<exists>cfg p q. existing = Some cfg \<and> cfg = p @ ''webpack:'' @ q)"
proof
  assume "generateNextConfig existing = Inl webpack_conflict"
  then obtain cfg where "existing = Some cfg" "str_includes cfg ''webpack:''"
    using conflict_only_when_included by blast
  then show "\<exists>cfg p q. existing = Some cfg \<and> cfg = p @ ''webpack:'' @ q"
    unfolding str_includes_iff by blast
next
  assume "\<exists>cfg p q. existing = Some cfg \<and> cfg = p @ ''webpack:'' @ q"
  then obtain cfg where "existing = Some cfg" "str_includes cfg ''webpack:''"
    unfolding str_includes_iff by blast
  then show "generateNextConfig existing = Inl webpack_conflict"
    by (simp add: conflict_when_included)
qed

theorem conflict_detection_is_substring_test_witness:
  "generateNextConfig (Some ''// webpack: none'') = Inl webpack_conflict
   \<and> generateNextConfig (Some ''module.exports = { webpack : f };'') \<noteq> Inl webpack_conflict"
proof -
  have "''// webpack: none'' = ''// '' @ ''webpack:'' @ '' none''" by simp
  then have a: "\<exists>cfg p q. Some ''// webpack: none'' = Some cfg \<and> cfg = p @ ''webpack:'' @ q"
    by blast
  have "\<not> str_includes ''module.exports = { webpack : f };'' ''webpack:''" by simp
  then have b: "\<not> (\<exists>cfg p q. Some ''module.exports = { webpack : f };'' = Some cfg
                        \<and> cfg = p @ ''webpack:'' @ q)"
    unfolding str_includes_iff by blast
  show ?thesis
    using conflict_detection_is_substring_test [of "Some ''// webpack: none''"]
          conflict_detection_is_substring_test [of "Some ''module.exports = { webpack : f };''"]
          a b
    by blast
qed

section \<open>The merge of the TypeScript configuration\<close>

subsection \<open>Property tables\<close>

lemma map_of_visible:
  "map_of (map (map_prod id visible) ms) k = map_option visible (map_of ms k)"
  by (induction ms) auto

lemma update_visible:
  "map (map_prod id visible) (AList.update k x ms)
   = AList.update k (visible x) (map (map_prod id visible) ms)"
  by (induction ms) auto

lemma update_same: "map_of ms k = Some x \<Longrightarrow> AList.update k x ms = ms"
  by (induction ms) (auto split: if_splits)

lemma update_twice: "AList.update k x (AList.update k y ms) = AList.update k x ms"
  by (induction ms) auto

lemma map_of_update:
  "map_of (AList.update k x ms) k' = (if k' = k then Some x else map_of ms k')"
  by (induction ms) auto

lemma visible_tx3: "visible tx3_glob_paths = tx3_glob_paths" "visible tx3_paths = tx3_paths"
  by (simp_all add: tx3_glob_paths_def tx3_paths_def)

lemma visible_idem: "visible (visible v) = visible v"
  by (induction v) (auto simp: list.pred_set prod.pred_set)

lemma map_visible_idem: "map (visible \<circ> visible) xs = map visible xs"
  by (simp add: visible_idem)

lemma members_visible_idem:
  "map (map_prod id visible \<circ> map_prod id visible) ms = map (map_prod id visible) ms"
  by (induction ms) (auto simp: visible_idem)

lemma update_visible_same:
  "map_of ms k = Some x \<Longrightarrow> visible x = y
   \<Longrightarrow> AList.update k y (map (map_prod id visible) ms) = map (map_prod id visible) ms"
  by (rule update_same) (simp add: map_of_visible)

lemma stringify_visible:
  "SerializeJSONProperty i (visible v) = SerializeJSONProperty i v"
  "SerializeJSONArray i (map visible vs) = SerializeJSONArray i vs"
  "SerializeJSONObject i (map (map_prod id visible) ms) = SerializeJSONObject i ms"
  by (induction i v and i vs and i ms
      rule: SerializeJSONProperty_SerializeJSONArray_SerializeJSONObject.induct)
     (auto simp: id_def)

lemma JSON_stringify_visible: "JSON_stringify (visible v) = JSON_stringify v"
  by (simp add: JSON_stringify_def stringify_visible)

subsection \<open>Reading and writing properties\<close>

lemma get_set:
  "set_prop v k x = Inr v'
   \<Longrightarrow> get_prop v' k' = Inr (if k' = k then Some x
                            else (case get_prop v k' of Inr y \<Rightarrow> y | Inl e \<Rightarrow> None))"
  by (cases v) (auto simp: map_of_update)

lemma set_container: "set_prop v k x = Inr v' \<Longrightarrow> is_container v \<and> is_container v'"
  by (cases v) auto

lemma container_set: "is_container v \<Longrightarrow> \<exists>v'. set_prop v k x = Inr v'"
  by (cases v) auto

lemma get_Some_container: "get_prop v k = Inr (Some c) \<Longrightarrow> is_container v"
  by (cases v) auto

lemma bind_err_Inr: "bind_err m f = Inr y \<longleftrightarrow> (\<exists>x. m = Inr x \<and> f x = Inr y)"
  by (cases m) (auto simp: bind_err_def)

lemma put_set: "set_prop v k x = Inr v' \<Longrightarrow> put_prop v k x = v'"
  by (simp add: put_prop_def)

subsection \<open>The merge of the path mappings\<close>

lemma merge_steps:
  assumes "tsconfig_merge j = Inr v"
  obtains c0 t1 c p0 c1 p p1 p2 where
    "get_prop j ''compilerOptions'' = Inr c0"
    "if js_not c0 then set_prop j ''compilerOptions'' (JObj []) = Inr t1 else t1 = j"
    "get_prop t1 ''compilerOptions'' = Inr (Some c)"
    "get_prop c ''paths'' = Inr p0"
    "if js_not p0 then set_prop c ''paths'' (JObj []) = Inr c1 else c1 = c"
    "get_prop c1 ''paths'' = Inr (Some p)"
    "set_prop p ''@tx3/*'' tx3_glob_paths = Inr p1"
    "set_prop p1 ''@tx3'' tx3_paths = Inr p2"
    "v = put_prop t1 ''compilerOptions'' (put_prop c1 ''paths'' p2)"
  using assms unfolding tsconfig_merge_def
  by (auto simp: bind_err_Inr split: option.splits if_splits)

lemma merge_has_tx3_paths:
  assumes "tsconfig_merge j = Inr v"
  shows "has_tx3_paths v"
proof -
  from assms obtain c0 t1 c p0 c1 p p1 p2 where
    c: "get_prop t1 ''compilerOptions'' = Inr (Some c)"
    and f: "get_prop c1 ''paths'' = Inr (Some p)"
    and g: "set_prop p ''@tx3/*'' tx3_glob_paths = Inr p1"
    and h: "set_prop p1 ''@tx3'' tx3_paths = Inr p2"
    and v: "v = put_prop t1 ''compilerOptions'' (put_prop c1 ''paths'' p2)"
    by (rule merge_steps)
  have ct1: "is_container t1" using c by (rule get_Some_container)
  have cc1: "is_container c1" using f by (rule get_Some_container)
  have cp2: "is_container p2" using h set_container by blast
  obtain c2 where c2: "set_prop c1 ''paths'' p2 = Inr c2"
    using container_set[OF cc1] by blast
  obtain t2 where t2: "set_prop t1 ''compilerOptions'' c2 = Inr t2"
    using container_set[OF ct1] by blast
  have veq: "v = t2" using v c2 t2 by (simp add: put_set)
  have "get_prop t2 ''compilerOptions'' = Inr (Some c2)" using get_set[OF t2] by simp
  moreover have "get_prop c2 ''paths'' = Inr (Some p2)" using get_set[OF c2] by simp
  moreover have "get_prop p2 ''@tx3'' = Inr (Some tx3_paths)" using get_set[OF h] by simp
  moreover have "get_prop p1 ''@tx3/*'' = Inr (Some tx3_glob_paths)"
    using get_set[OF g] by simp
  then have "get_prop p2 ''@tx3/*'' = Inr (Some tx3_glob_paths)"
    using get_set[OF h, of "''@tx3/*''"] by simp
  moreover have "is_container t2" "is_container c2" using set_container t2 c2 by blast+
  ultimately show ?thesis unfolding has_tx3_paths_def veq using cp2 by blast
qed

lemma merge_again:
  assumes "has_tx3_paths v"
  shows "\<exists>v'. tsconfig_merge (visible v) = Inr v' \<and> visible v' = visible v"
proof -
  from assms obtain c p where
    "is_container v" "get_prop v ''compilerOptions'' = Inr (Some c)" "is_container c"
    "get_prop c ''paths'' = Inr (Some p)" "is_container p"
    "get_prop p ''@tx3/*'' = Inr (Some tx3_glob_paths)"
    "get_prop p ''@tx3'' = Inr (Some tx3_paths)"
    unfolding has_tx3_paths_def by blast
  then show ?thesis
    by (cases v; cases c; cases p)
       (simp_all add: tsconfig_merge_def bind_err_def js_not_def put_prop_def map_of_visible
          update_visible update_same update_twice map_of_update map_visible_idem
          members_visible_idem update_visible_same visible_tx3 visible_idem)
qed

lemma merge_twice_prints_the_same:
  assumes "tsconfig_merge j = Inr v"
  shows "\<exists>v'. tsconfig_merge (visible v) = Inr v' \<and> JSON_stringify v' = JSON_stringify v"
proof -
  from assms have "has_tx3_paths v" by (rule merge_has_tx3_paths)
  then obtain v' where m: "tsconfig_merge (visible v) = Inr v'" and "visible v' = visible v"
    using merge_again by blast
  then have "JSON_stringify (visible v') = JSON_stringify (visible v)" by simp
  then have "JSON_stringify v' = JSON_stringify v" by (simp only: JSON_stringify_visible)
  with m show ?thesis by blast
qed

text \<open>
  C8. The merge is idempotent on the text: when \<open>updateTsConfig\<close> succeeds on a document
  (it parses, and the merge gives \<open>v\<close>) and \<open>JSON.parse\<close> reads the written text back as
  what \<open>JSON.stringify\<close> showed of \<open>v\<close>, a second application writes the same text
  again. This holds for every document on which the merge succeeds, arrays included.
\<close>

theorem tsconfig_merge_idempotent:
  assumes "parse txt = Some tsconfig"
      and "tsconfig_merge tsconfig = Inr v"
      and "parse (JSON_stringify v) = Some (visible v)"
  shows "tsconfig_text parse txt = Inr (JSON_stringify v)
         \<and> bind_err (tsconfig_text parse txt) (tsconfig_text parse)
           = tsconfig_text parse txt"
proof -
  have once: "tsconfig_text parse txt = Inr (JSON_stringify v)"
    using assms(1,2) by (simp add: tsconfig_text_def bind_err_def)
  obtain v' where "tsconfig_merge (visible v) = Inr v'" "JSON_stringify v' = JSON_stringify v"
    using merge_twice_prints_the_same[OF assms(2)] by blast
  then have "tsconfig_text parse (JSON_stringify v) = Inr (JSON_stringify v)"
    using assms(3) by (simp add: tsconfig_text_def bind_err_def)
  with once show ?thesis by (simp add: bind_err_def)
qed

lemma scenario_stringify:
  \<open>JSON_stringify scenario_merged = join_nl
    [''{'',
     ''  "compilerOptions": {'',
     ''    "paths": {'',
     ''      "foo": ['',
     ''        "./foo"'',
     ''      ],'',
     ''      "@tx3/*": ['',
     ''        "./tx3/bindings/*"'',
     ''      ],'',
     ''      "@tx3": ['',
     ''        "./tx3/bindings"'',
     ''      ]'',
     ''    }'',
     ''  }'',
     ''}'']\<close>
  by (simp add: JSON_stringify_def scenario_merged_def wrap_def QuoteJSONString_def eval_nat_numeral)

lemma empty_stringify:
  \<open>JSON_stringify empty_merged = join_nl
    [''{'',
     ''  "compilerOptions": {'',
     ''    "paths": {'',
     ''      "@tx3/*": ['',
     ''        "./tx3/bindings/*"'',
     ''      ],'',
     ''      "@tx3": ['',
     ''        "./tx3/bindings"'',
     ''      ]'',
     ''    }'',
     ''  }'',
     ''}'']\<close>
  by (simp add: JSON_stringify_def empty_merged_def wrap_def QuoteJSONString_def eval_nat_numeral)

lemma sample_parse_scenario: "sample_JSON_parse scenario_text = Some scenario_json"
  by (simp add: sample_JSON_parse_def scenario_text_def)

lemma sample_parse_merged: "sample_JSON_parse (JSON_stringify scenario_merged) = Some scenario_merged"
  by (simp add: sample_JSON_parse_def scenario_text_def scenario_stringify empty_stringify)

lemma sample_parse_empty: "sample_JSON_parse ''{}'' = Some (JObj [])"
  by (simp add: sample_JSON_parse_def)

lemma sample_parse_empty_merged: "sample_JSON_parse (JSON_stringify empty_merged) = Some empty_merged"
  by (simp add: sample_JSON_parse_def scenario_text_def scenario_stringify empty_stringify)

lemma sample_parse_null: "sample_JSON_parse ''null'' = Some JNull"
  by (simp add: sample_JSON_parse_def scenario_text_def scenario_stringify empty_stringify)

lemma sample_parse_malformed: "sample_JSON_parse ''{'' = None"
  by (simp add: sample_JSON_parse_def scenario_text_def scenario_stringify empty_stringify)

lemma scenario_merge: "tsconfig_merge scenario_json = Inr scenario_merged"
  by (simp add: tsconfig_merge_def scenario_json_def scenario_merged_def bind_err_def js_not_def
        put_prop_def tx3_glob_paths_def tx3_paths_def)

lemma empty_merge: "tsconfig_merge (JObj []) = Inr empty_merged"
  by (simp add: tsconfig_merge_def empty_merged_def bind_err_def js_not_def
        put_prop_def tx3_glob_paths_def tx3_paths_def)

lemma visible_scenario_merged: "visible scenario_merged = scenario_merged"
  by (simp add: scenario_merged_def)

theorem tsconfig_merge_idempotent_witness:
  "sample_JSON_parse scenario_text = Some scenario_json
   \<and> tsconfig_merge scenario_json = Inr scenario_merged
   \<and> sample_JSON_parse (JSON_stringify scenario_merged) = Some (visible scenario_merged)
   \<and> tsconfig_text sample_JSON_parse scenario_text = Inr (JSON_stringify scenario_merged)
   \<and> bind_err (tsconfig_text sample_JSON_parse scenario_text) (tsconfig_text sample_JSON_parse)
     = tsconfig_text sample_JSON_parse scenario_text"
proof -
  have h1: "sample_JSON_parse scenario_text = Some scenario_json"
    by (rule sample_parse_scenario)
  have h2: "tsconfig_merge scenario_json = Inr scenario_merged"
    by (rule scenario_merge)
  have h3: "sample_JSON_parse (JSON_stringify scenario_merged) = Some (visible scenario_merged)"
    by (simp only: sample_parse_merged visible_scenario_merged)
  from tsconfig_merge_idempotent [OF h1 h2 h3] h1 h2 h3 show ?thesis by blast
qed


lemma update_keys_order:
  "map fst (AList.update k x ms)
   = (if k \<in> set (map fst ms) then map fst ms else map fst ms @ [k])"
  by (induction ms) auto

lemma merge_of_object:
  assumes "object_or_falsy (map_of ms ''compilerOptions'')"
      and "object_or_falsy (map_of (members_of (map_of ms ''compilerOptions'')) ''paths'')"
  shows "tsconfig_merge (JObj ms)
         = Inr (JObj (AList.update ''compilerOptions''
                 (JObj (AList.update ''paths''
                    (JObj (AList.update ''@tx3'' tx3_paths
                             (AList.update ''@tx3/*'' tx3_glob_paths
                                (members_of (map_of (members_of (map_of ms ''compilerOptions''))
                                               ''paths'')))))
                    (members_of (map_of ms ''compilerOptions''))))
                 ms))"
proof (cases "map_of ms ''compilerOptions''")
  case None
  then show ?thesis
    by (simp add: tsconfig_merge_def bind_err_def js_not_def put_prop_def members_of_def
          map_of_update update_twice)
next
  case (Some c)
  show ?thesis
  proof (cases "\<exists>cs. c = JObj cs")
    case False
    with Some assms(1) have "\<not> truthy c" "members_of (Some c) = []"
      by (cases c; simp add: object_or_falsy_def members_of_def)+
    with Some show ?thesis
      by (simp add: tsconfig_merge_def bind_err_def js_not_def put_prop_def
            map_of_update update_twice members_of_def)
  next
    case True
    then obtain cs where c: "c = JObj cs" by blast
    show ?thesis
    proof (cases "map_of cs ''paths''")
      case None
      with Some c show ?thesis
        by (simp add: tsconfig_merge_def bind_err_def js_not_def put_prop_def members_of_def
              map_of_update update_twice)
    next
      case (Some p)
      note p = this
      show ?thesis
      proof (cases "\<exists>ps. p = JObj ps")
        case False
        with p assms(2) \<open>map_of ms ''compilerOptions'' = Some c\<close> c
        have "\<not> truthy p" "members_of (Some p) = []"
          by (cases p; simp add: object_or_falsy_def members_of_def)+
        with p \<open>map_of ms ''compilerOptions'' = Some c\<close> c show ?thesis
          by (simp add: tsconfig_merge_def bind_err_def js_not_def put_prop_def
                map_of_update update_twice members_of_def)
      next
        case True
        then obtain ps where "p = JObj ps" by blast
        with p \<open>map_of ms ''compilerOptions'' = Some c\<close> c show ?thesis
          by (simp add: tsconfig_merge_def bind_err_def js_not_def put_prop_def
                map_of_update update_twice members_of_def)
      qed
    qed
  qed
qed

text \<open>
  C4, as amended. A text \<open>JSON.parse\<close> rejects gives the error
  \<open>Failed to parse tsconfig.json\<close>. A text that parses to an object whose
  \<open>compilerOptions\<close> is absent, falsy or an object, with \<open>paths\<close> in it absent, falsy or an
  object, is rewritten as follows: \<open>compilerOptions\<close> and \<open>paths\<close> are objects afterwards
  (empty ones are created where there was none), \<open>paths\<close> maps \<open>@tx3/*\<close> to
  \<open>["./tx3/bindings/*"]\<close> and \<open>@tx3\<close> to \<open>["./tx3/bindings"]\<close>, every other key of the three
  objects keeps its value and its place, and the text written is \<open>JSON.stringify\<close> of that
  document with an indentation of two spaces.
\<close>

theorem tsconfig_merge_adds_paths:
  "(parse txt = None \<longrightarrow> tsconfig_text parse txt = Inl (Error ''Failed to parse tsconfig.json''))
   \<and> (parse txt = Some (JObj ms)
        \<and> object_or_falsy (map_of ms ''compilerOptions'')
        \<and> object_or_falsy (map_of (members_of (map_of ms ''compilerOptions'')) ''paths'')
      \<longrightarrow>
        (let cs = members_of (map_of ms ''compilerOptions'');
             ps = members_of (map_of cs ''paths'');
             ps' = AList.update ''@tx3'' tx3_paths (AList.update ''@tx3/*'' tx3_glob_paths ps);
             cs' = AList.update ''paths'' (JObj ps') cs;
             ms' = AList.update ''compilerOptions'' (JObj cs') ms
         in tsconfig_text parse txt = Inr (JSON_stringify (JObj ms'))
            \<and> map_of ms' ''compilerOptions'' = Some (JObj cs')
            \<and> map_of cs' ''paths'' = Some (JObj ps')
            \<and> map_of ps' ''@tx3/*'' = Some tx3_glob_paths
            \<and> map_of ps' ''@tx3'' = Some tx3_paths
            \<and> (\<forall>k. k \<noteq> ''@tx3/*'' \<and> k \<noteq> ''@tx3'' \<longrightarrow> map_of ps' k = map_of ps k)
            \<and> (\<forall>k. k \<noteq> ''paths'' \<longrightarrow> map_of cs' k = map_of cs k)
            \<and> (\<forall>k. k \<noteq> ''compilerOptions'' \<longrightarrow> map_of ms' k = map_of ms k)
            \<and> filter (\<lambda>k. k \<noteq> ''@tx3/*'' \<and> k \<noteq> ''@tx3'') (map fst ps')
                = filter (\<lambda>k. k \<noteq> ''@tx3/*'' \<and> k \<noteq> ''@tx3'') (map fst ps)
            \<and> filter (\<lambda>k. k \<noteq> ''paths'') (map fst cs') = filter (\<lambda>k. k \<noteq> ''paths'') (map fst cs)
            \<and> filter (\<lambda>k. k \<noteq> ''compilerOptions'') (map fst ms')
                = filter (\<lambda>k. k \<noteq> ''compilerOptions'') (map fst ms)))"
proof (intro conjI impI)
  assume "parse txt = None"
  then show "tsconfig_text parse txt = Inl (Error ''Failed to parse tsconfig.json'')"
    by (simp add: tsconfig_text_def)
next
  assume h: "parse txt = Some (JObj ms)
        \<and> object_or_falsy (map_of ms ''compilerOptions'')
        \<and> object_or_falsy (map_of (members_of (map_of ms ''compilerOptions'')) ''paths'')"
  then have "tsconfig_text parse txt
        = Inr (JSON_stringify (JObj (AList.update ''compilerOptions''
                 (JObj (AList.update ''paths''
                    (JObj (AList.update ''@tx3'' tx3_paths
                             (AList.update ''@tx3/*'' tx3_glob_paths
                                (members_of (map_of (members_of (map_of ms ''compilerOptions''))
                                               ''paths'')))))
                    (members_of (map_of ms ''compilerOptions''))))
                 ms)))"
    by (simp add: tsconfig_text_def bind_err_def merge_of_object)
  then show "let cs = members_of (map_of ms ''compilerOptions'');
             ps = members_of (map_of cs ''paths'');
             ps' = AList.update ''@tx3'' tx3_paths (AList.update ''@tx3/*'' tx3_glob_paths ps);
             cs' = AList.update ''paths'' (JObj ps') cs;
             ms' = AList.update ''compilerOptions'' (JObj cs') ms
         in tsconfig_text parse txt = Inr (JSON_stringify (JObj ms'))
            \<and> map_of ms' ''compilerOptions'' = Some (JObj cs')
            \<and> map_of cs' ''paths'' = Some (JObj ps')
            \<and> map_of ps' ''@tx3/*'' = Some tx3_glob_paths
            \<and> map_of ps' ''@tx3'' = Some tx3_paths
            \<and> (\<forall>k. k \<noteq> ''@tx3/*'' \<and> k \<noteq> ''@tx3'' \<longrightarrow> map_of ps' k = map_of ps k)
            \<and> (\<forall>k. k \<noteq> ''paths'' \<longrightarrow> map_of cs' k = map_of cs k)
            \<and> (\<forall>k. k \<noteq> ''compilerOptions'' \<longrightarrow> map_of ms' k = map_of ms k)
            \<and> filter (\<lambda>k. k \<noteq> ''@tx3/*'' \<and> k \<noteq> ''@tx3'') (map fst ps')
                = filter (\<lambda>k. k \<noteq> ''@tx3/*'' \<and> k \<noteq> ''@tx3'') (map fst ps)
            \<and> filter (\<lambda>k. k \<noteq> ''paths'') (map fst cs') = filter (\<lambda>k. k \<noteq> ''paths'') (map fst cs)
            \<and> filter (\<lambda>k. k \<noteq> ''compilerOptions'') (map fst ms')
                = filter (\<lambda>k. k \<noteq> ''compilerOptions'') (map fst ms)"
    by (simp add: Let_def map_of_update update_keys_order)
qed


theorem tsconfig_merge_adds_paths_witness:
  "sample_JSON_parse ''{'' = None
   \<and> tsconfig_text sample_JSON_parse ''{'' = Inl (Error ''Failed to parse tsconfig.json'')
   \<and> sample_JSON_parse scenario_text = Some scenario_json
   \<and> tsconfig_text sample_JSON_parse scenario_text = Inr (JSON_stringify scenario_merged)"
proof -
  let ?ms = "[(''compilerOptions'',
               JObj [(''paths'', JObj [(''foo'', JArr [JStr ''./foo''] [])])])]"
  have p: "sample_JSON_parse scenario_text = Some (JObj ?ms)"
    using sample_parse_scenario by (simp add: scenario_json_def)
  have shape: "object_or_falsy (map_of ?ms ''compilerOptions'')"
    "object_or_falsy (map_of (members_of (map_of ?ms ''compilerOptions'')) ''paths'')"
    by (simp_all add: object_or_falsy_def members_of_def)
  have "tsconfig_text sample_JSON_parse ''{'' = Inl (Error ''Failed to parse tsconfig.json'')"
    using tsconfig_merge_adds_paths [of sample_JSON_parse "''{''" "[]"] sample_parse_malformed
    by blast
  moreover have "tsconfig_text sample_JSON_parse scenario_text
                 = Inr (JSON_stringify scenario_merged)"
    using tsconfig_merge_adds_paths [of sample_JSON_parse scenario_text ?ms] p shape
    by (simp add: Let_def members_of_def scenario_merged_def tx3_glob_paths_def tx3_paths_def)
  ultimately show ?thesis
    using sample_parse_malformed sample_parse_scenario by blast
qed

text \<open>
  The claim as written speaks of every parsable text. The text \<open>null\<close> parses; the first
  test of the merge then reads a property of \<open>null\<close> and the runtime throws a
  \<open>TypeError\<close>, which is neither the parse error nor a merged document.
\<close>

theorem tsconfig_null_counterexample:
  "sample_JSON_parse ''null'' = Some JNull
   \<and> tsconfig_text sample_JSON_parse ''null''
     = Inl (TypeError ''Cannot read properties of null (reading 'compilerOptions')'')"
  by (simp add: sample_parse_null tsconfig_text_def tsconfig_merge_def bind_err_def quoted_def)


section \<open>Runs of \<open>installCommand\<close>\<close>

subsection \<open>Statements that keep a file\<close>

lemma below_inj [simp]: "below c p = below c q \<longleftrightarrow> p = q"
  by (simp add: below_def)

lemma resolve_inj [simp]: "resolve s p = resolve s q \<longleftrightarrow> p = q"
  by (simp add: resolve_def)

lemma keepsI:
  assumes "\<And>s::state. cwd s = c \<Longrightarrow> cwd (snd (st s)) = c"
      and "\<And>s::state. cwd s = c \<Longrightarrow> backups (snd (st s)) = backups s"
      and "\<And>s::state. cwd s = c
           \<Longrightarrow> files (snd (st s)) (resolve s p) = files s (resolve s p)"
  shows "keeps c p st"
  using assms unfolding keeps_def by blast

lemma keepsD:
  assumes "keeps c p st" and "cwd s = c" and "st s = (r, s')"
  shows "cwd s' = c" "backups s' = backups s" "files s' (resolve s p) = files s (resolve s p)"
  using assms unfolding keeps_def by (metis snd_conv)+

lemma keeps_seq:
  assumes "\<And>st. st \<in> set sts \<Longrightarrow> keeps c p st"
  shows "keeps c p (seq sts)"
  using assms
proof (induction sts)
  case Nil
  show ?case by (rule keepsI) simp_all
next
  case (Cons st sts)
  have k1: "keeps c p st" using Cons.prems by simp
  have k2: "keeps c p (seq sts)" using Cons by simp
  show ?case
  proof (rule keepsI)
    fix s :: state assume c: "cwd s = c"
    obtain r s1 where st: "st s = (r, s1)" by (cases "st s")
    note a = keepsD[OF k1 c st]
    obtain r2 s2 where sq: "seq sts s1 = (r2, s2)" by (cases "seq sts s1")
    note b = keepsD[OF k2 a(1) sq]
    have res: "resolve s1 p = resolve s p" using a(1) c by (simp add: resolve_def)
    show "cwd (snd (seq (st # sts) s)) = c"
      using st sq a b by (cases r) auto
    show "backups (snd (seq (st # sts) s)) = backups s"
      using st sq a b by (cases r) auto
    show "files (snd (seq (st # sts) s)) (resolve s p) = files s (resolve s p)"
      using st sq a b res by (cases r) auto
  qed
qed

lemma keeps_emit: "keeps c p (emit e)"
  by (rule keepsI) (simp_all add: emit_def print_def)

lemma keeps_skip: "keeps c p skip"
  by (rule keepsI) (simp_all add: skip_def)

lemma keeps_progress:
  "keeps c p (progress_start sp t)" "keeps c p (progress_succeed sp t)"
  "keeps c p (progress_warn sp t)"
  by (simp_all add: progress_start_def progress_succeed_def progress_warn_def keeps_emit)

lemma keeps_writeFile: "p \<noteq> q \<Longrightarrow> keeps c p (writeFile E q content)"
  by (rule keepsI) (simp_all add: writeFile_def raise_at_def split: option.splits)

lemma keeps_createDirectory: "keeps c p (createDirectory E q)"
  by (rule keepsI) (simp_all add: createDirectory_def raise_at_def split: option.splits)

lemma keeps_ensureBackupDir: "keeps c p (ensureBackupDir E)"
  by (rule keepsI) (simp_all add: ensureBackupDir_def raise_at_def split: option.splits)

lemma keeps_installPackages:
  "package_manager_keeps E c p \<Longrightarrow> keeps c p (installPackages E pkgs dev)"
  by (rule keepsI) (simp_all add: installPackages_def package_manager_keeps_def resolve_def)

lemma install_missing_cases:
  "(\<exists>e. install_missing E s = (Some e, s))
   \<or> install_missing E s
     = seq [if getMissingPackages E s requiredPackages \<noteq> []
            then installPackages E (getMissingPackages E s requiredPackages) False else skip,
            if getMissingPackages E s requiredDevPackages \<noteq> []
            then installPackages E (getMissingPackages E s requiredDevPackages) True
            else skip] s"
  unfolding install_missing_def Let_def
  by (cases "fails E (GetMissingPackages False)"; cases "fails E (GetMissingPackages True)")
     (simp_all del: seq.simps)

lemma keeps_install_missing:
  assumes "package_manager_keeps E c p"
  shows "keeps c p (install_missing E)"
proof (rule keepsI)
  fix s :: state assume c: "cwd s = c"
  let ?sq = "seq [if getMissingPackages E s requiredPackages \<noteq> []
            then installPackages E (getMissingPackages E s requiredPackages) False else skip,
            if getMissingPackages E s requiredDevPackages \<noteq> []
            then installPackages E (getMissingPackages E s requiredDevPackages) True
            else skip]"
  have "keeps c p ?sq"
    by (rule keeps_seq) (auto simp: keeps_installPackages[OF assms] keeps_skip)
  then have *: "cwd (snd (?sq s)) = c \<and> backups (snd (?sq s)) = backups s
         \<and> files (snd (?sq s)) (resolve s p) = files s (resolve s p)"
    using c unfolding keeps_def by blast
  from install_missing_cases[of E s]
  show "cwd (snd (install_missing E s)) = c"
    using * c by (elim disjE exE) (simp_all del: seq.simps)
  from install_missing_cases[of E s]
  show "backups (snd (install_missing E s)) = backups s"
    using * by (elim disjE exE) (simp_all del: seq.simps)
  from install_missing_cases[of E s]
  show "files (snd (install_missing E s)) (resolve s p) = files s (resolve s p)"
    using * by (elim disjE exE) (simp_all del: seq.simps)
qed

lemma keeps_install_packages:
  "package_manager_keeps E c p \<Longrightarrow> keeps c p (install_packages E sp)"
  unfolding install_packages_def
  by (rule keeps_seq) (auto simp: keeps_progress keeps_install_missing)

lemma keeps_updateTsConfig: "p \<noteq> ''tsconfig.json'' \<Longrightarrow> keeps c p (updateTsConfig E)"
  by (rule keepsI)
     (simp_all add: updateTsConfig_def writeFile_def raise_at_def split: option.splits sum.splits)

lemma keeps_update_typescript:
  "p \<noteq> ''tsconfig.json'' \<Longrightarrow> keeps c p (update_typescript E sp)"
  unfolding update_typescript_def
  by (rule keeps_seq) (auto simp: keeps_progress keeps_updateTsConfig)

lemma keeps_write_scripts: "p \<noteq> ''package.json'' \<Longrightarrow> keeps c p (write_scripts E)"
  by (rule keepsI)
     (simp_all add: write_scripts_def writePackageJson_def raise_at_def
        split: option.splits sum.splits)

lemma keeps_add_scripts: "p \<noteq> ''package.json'' \<Longrightarrow> keeps c p (add_scripts E sp)"
  unfolding add_scripts_def
  by (rule keeps_seq) (auto simp: keeps_progress keeps_write_scripts)

lemma keeps_createTx3Files:
  "p \<noteq> ''tx3/trix.toml'' \<Longrightarrow> p \<noteq> ''tx3/main.tx3'' \<Longrightarrow> p \<noteq> ''scripts/generate-tx3.mjs''
   \<Longrightarrow> keeps c p (createTx3Files E)"
  unfolding createTx3Files_def
  by (rule keeps_seq) (auto simp: keeps_writeFile keeps_createDirectory)

lemma keeps_create_files:
  "p \<noteq> ''tx3/trix.toml'' \<Longrightarrow> p \<noteq> ''tx3/main.tx3'' \<Longrightarrow> p \<noteq> ''scripts/generate-tx3.mjs''
   \<Longrightarrow> keeps c p (create_files E sp)"
  unfolding create_files_def
  by (rule keeps_seq) (auto simp: keeps_progress keeps_createTx3Files)

lemma keeps_completed: "keeps c p completed"
  by (rule keepsI) (simp_all add: completed_def prints_def)

lemmas io_defs =
  print_def prints_def emit_def skip_def raise_at_def progress_start_def progress_succeed_def
  progress_warn_def progress_fail_def below_def resolve_def fileExists_def directoryExists_def
  backup_area_def backup_path_of_def ensureBackupDir_def backupFile_def restoreFromBackup_def
  readFile_def writeFile_def createDirectory_def removeDirectory_def beneath_def
  detectPackageManager_def installPackages_def addScripts_def writePackageJson_def
  TrixInstaller_installTrix_def copyDevnetFolder_def no_such_file_def quoted_def

lemmas install_defs =
  updateTsConfig_def createTx3Files_def backup_files_def create_backup_def install_missing_def
  install_packages_def update_typescript_def write_scripts_def add_scripts_def create_files_def
  completed_def rollback_def validate_project_def install_steps_def installCommand_def
  requiredPackages_def requiredDevPackages_def

lemmas sample_defs =
  sample_env_def sample_state_def sample_validator_def plain_options_def empty_project_def
  project_without_tsconfig_def fail_at_def


subsection \<open>Validation\<close>

text \<open>
  C7. When the validator (for a fresh project or for an existing one, as \<open>fresh\<close> says)
  reports the project invalid, \<open>installCommand\<close> prints every error of the validation
  and throws \<open>Project validation failed\<close>, which the process turns into a non-zero exit
  status. Nothing but the console has changed: no file, no directory (so no backup
  directory), no backup entry.
\<close>

theorem invalid_project_blocks_install:
  assumes "validation = (if fresh options
                          then validateFreshProject E (print (Log ''Checking Next.js project...'') s)
                          else validateNextJsProject E (print (Log ''Checking Next.js project...'') s))"
      and "\<not> isValid validation"
  shows "\<exists>s'. installCommand E options s = (Thrown (Error ''Project validation failed''), s')
           \<and> exit_code (fst (installCommand E options s)) \<noteq> 0
           \<and> files s' = files s \<and> dirs s' = dirs s \<and> cwd s' = cwd s \<and> backups s' = backups s
           \<and> console s' = console s
                @ [Log ''Checking Next.js project...'', LogError ''Project validation failed:'']
                @ map (\<lambda>error. LogError (''  * '' @ error)) (errors validation)"
proof -
  let ?s1 = "print (Log ''Checking Next.js project...'') s"
  let ?s2 = "prints (LogError ''Project validation failed:''
                     # map (\<lambda>error. LogError (''  * '' @ error)) (errors validation)) ?s1"
  have "validate_project E options True s
        = Inl (Thrown (Error ''Project validation failed''), ?s2)"
    using assms by (cases "fresh options") (simp_all add: validate_project_def Let_def)
  then have "installCommand E options s = (Thrown (Error ''Project validation failed''), ?s2)"
    by (simp add: installCommand_def)
  then show ?thesis
    by (simp add: print_def prints_def)
qed

theorem invalid_project_blocks_install_witness:
  "\<not> isValid (validateNextJsProject sample_env
                 (print (Log ''Checking Next.js project...'') empty_project))
   \<and> installCommand sample_env plain_options empty_project
     = (Thrown (Error ''Project validation failed''),
        empty_project\<lparr>console := [Log ''Checking Next.js project...'',
                                    LogError ''Project validation failed:'',
                                    LogError ''  * package.json not found'']\<rparr>)
   \<and> exit_code (fst (installCommand sample_env plain_options empty_project)) \<noteq> 0"
proof -
  let ?v = "validateNextJsProject sample_env
              (print (Log ''Checking Next.js project...'') empty_project)"
  have h1: "?v = (if fresh plain_options
                  then validateFreshProject sample_env
                         (print (Log ''Checking Next.js project...'') empty_project)
                  else validateNextJsProject sample_env
                         (print (Log ''Checking Next.js project...'') empty_project))"
    by (simp add: plain_options_def)
  have h2: "\<not> isValid ?v"
    by (simp add: io_defs sample_defs)
  have e: "errors ?v = [''package.json not found'']"
    by (simp add: io_defs sample_defs)
  from invalid_project_blocks_install [OF h1 h2] obtain s' where
    run: "installCommand sample_env plain_options empty_project
          = (Thrown (Error ''Project validation failed''), s')"
    and code: "exit_code (fst (installCommand sample_env plain_options empty_project)) \<noteq> 0"
    and s': "files s' = files empty_project" "dirs s' = dirs empty_project"
       "cwd s' = cwd empty_project" "backups s' = backups empty_project"
       "console s' = console empty_project
                @ [Log ''Checking Next.js project...'', LogError ''Project validation failed:'']
                @ map (\<lambda>error. LogError (''  * '' @ error)) (errors ?v)"
    by blast
  have "s' = empty_project\<lparr>console := [Log ''Checking Next.js project...'',
                                    LogError ''Project validation failed:'',
                                    LogError ''  * package.json not found'']\<rparr>"
    using s' e by (simp add: sample_defs)
  with run code h2 show ?thesis by blast
qed

subsection \<open>A project without \<open>tsconfig.json\<close>\<close>

lemma fileExists_print [simp]: "fileExists (print e s) p = fileExists s p"
  by (simp add: fileExists_def resolve_def print_def)

lemma updateTsConfig_missing:
  "\<not> fileExists s ''tsconfig.json''
   \<Longrightarrow> updateTsConfig E s = (Some (Error ''tsconfig.json not found''), s)"
  by (simp add: updateTsConfig_def)

lemma update_typescript_missing:
  "\<not> fileExists s ''tsconfig.json''
   \<Longrightarrow> update_typescript E sp s
       = (Some (Error ''tsconfig.json not found''),
          print (if sp then SpinnerStart ''Updating TypeScript configuration...''
                 else Log ''Updating TypeScript configuration...'') s)"
  by (simp add: update_typescript_def progress_start_def emit_def updateTsConfig_missing)

lemma create_backup_without_tsconfig:
  assumes "cwd s = c" and "files s (below c ''tsconfig.json'') = None"
      and "\<forall>b\<in>set (backups s). originalPath b \<noteq> ''tsconfig.json''"
      and "create_backup E sp s = (r, s')"
  shows "cwd s' = c \<and> files s' (below c ''tsconfig.json'') = None
         \<and> (\<forall>b\<in>set (backups s'). originalPath b \<noteq> ''tsconfig.json'')"
  using assms
  by (auto simp: create_backup_def backup_files_def fileExists_def resolve_def
        progress_start_def progress_succeed_def emit_def print_def ensureBackupDir_def
        raise_at_def backupFile_def backup_path_of_def backup_area_def
      split: option.splits if_splits)

lemma restore_all_other:
  assumes "\<forall>b\<in>set bs. originalPath b \<noteq> p" and "cwd s = c"
  shows "files (restore_all E bs s) (below c p) = files s (below c p)
         \<and> cwd (restore_all E bs s) = c \<and> backups (restore_all E bs s) = backups s"
  using assms
proof (induction bs arbitrary: s)
  case Nil
  then show ?case by simp
next
  case (Cons b bs)
  obtain r s1 where r: "restoreFromBackup E b s = (r, s1)" by (cases "restoreFromBackup E b s")
  from Cons.prems have ne: "originalPath b \<noteq> p" by simp
  have s1: "files s1 (below c p) = files s (below c p) \<and> cwd s1 = c \<and> backups s1 = backups s"
    using r ne Cons.prems(2)
    by (auto simp: restoreFromBackup_def resolve_def split: option.splits if_splits)
  show ?case
  proof (cases r)
    case None
    with r s1 Cons.IH[of s1] Cons.prems show ?thesis by simp
  next
    case (Some e)
    let ?s2 = "print (LogError (''Failed to restore '' @ originalPath b @ '': '' @ error_string e)) s1"
    have "files ?s2 (below c p) = files s (below c p) \<and> cwd ?s2 = c \<and> backups ?s2 = backups s"
      using s1 by (simp add: print_def)
    with r Some Cons.IH[of ?s2] Cons.prems show ?thesis by simp
  qed
qed

lemma rollback_other:
  assumes "\<forall>b\<in>set (backups s). originalPath b \<noteq> p" and "cwd s = c"
  shows "files (rollback E sp e s) (below c p) = files s (below c p)
         \<and> cwd (rollback E sp e s) = c \<and> backups (rollback E sp e s) = backups s"
proof -
  let ?s3 = "print (Log ''Rolling back changes...'')
              (print (LogError (''Error: '' @ message e))
                (progress_fail sp ''Installation failed'' s))"
  have s3: "backups ?s3 = backups s" "cwd ?s3 = c" "files ?s3 = files s"
    using assms(2) by (simp_all add: print_def progress_fail_def)
  have "files (restore_all E (backups ?s3) ?s3) (below c p) = files ?s3 (below c p)
         \<and> cwd (restore_all E (backups ?s3) ?s3) = c
         \<and> backups (restore_all E (backups ?s3) ?s3) = backups ?s3"
    by (rule restore_all_other) (use assms s3 in simp_all)
  then show ?thesis
    using s3 by (simp add: rollback_def Let_def print_def)
qed

lemma install_steps_without_tsconfig:
  assumes c: "cwd s = c" and absent: "files s (below c ''tsconfig.json'') = None"
      and bs: "\<forall>b\<in>set (backups s). originalPath b \<noteq> ''tsconfig.json''"
      and pm: "package_manager_keeps E c ''tsconfig.json''"
  shows "\<exists>e s'. install_steps E s = (Some e, s') \<and> cwd s' = c
           \<and> files s' (below c ''tsconfig.json'') = None
           \<and> (\<forall>b\<in>set (backups s'). originalPath b \<noteq> ''tsconfig.json'')
           \<and> (\<forall>s1 s2. create_backup E True s = (None, s1)
                 \<longrightarrow> install_packages E True s1 = (None, s2)
                 \<longrightarrow> e = Error ''tsconfig.json not found''
                     \<and> s' = print (SpinnerStart ''Updating TypeScript configuration...'') s2)"
proof -
  obtain r1 s1 where b: "create_backup E True s = (r1, s1)"
    by (cases "create_backup E True s")
  have i1: "cwd s1 = c \<and> files s1 (below c ''tsconfig.json'') = None
         \<and> (\<forall>b\<in>set (backups s1). originalPath b \<noteq> ''tsconfig.json'')"
    using c absent bs b by (rule create_backup_without_tsconfig)
  show ?thesis
  proof (cases r1)
    case (Some e)
    with b i1 show ?thesis by (simp add: install_steps_def)
  next
    case None
    note r1 = this
    obtain r2 s2 where p: "install_packages E True s1 = (r2, s2)"
      by (cases "install_packages E True s1")
    have k: "keeps c ''tsconfig.json'' (install_packages E True)"
      using pm by (rule keeps_install_packages)
    have i2: "cwd s2 = c \<and> files s2 (below c ''tsconfig.json'') = None
         \<and> (\<forall>b\<in>set (backups s2). originalPath b \<noteq> ''tsconfig.json'')"
      using keepsD[OF k _ p] i1 by (simp add: resolve_def)
    show ?thesis
    proof (cases r2)
      case (Some e)
      with b r1 p i2 show ?thesis by (simp add: install_steps_def)
    next
      case None
      have "\<not> fileExists s2 ''tsconfig.json''"
        using i2 by (simp add: fileExists_def resolve_def)
      then have "update_typescript E True s2
                 = (Some (Error ''tsconfig.json not found''),
                    print (SpinnerStart ''Updating TypeScript configuration...'') s2)"
        by (simp add: update_typescript_missing)
      with b r1 p None i2 show ?thesis
        by (simp add: install_steps_def print_def)
    qed
  qed
qed

text \<open>
  C10. Without a \<open>tsconfig.json\<close>, \<open>updateTsConfig\<close> throws
  \<open>tsconfig.json not found\<close> and leaves the state as it is. A run of \<open>installCommand\<close>
  that gets past validation and the confirmation then ends in the \<open>catch\<close> block with
  \<open>process.exit(1)\<close>: \<open>backups\<close> has no entry for \<open>tsconfig.json\<close>, the file is still
  absent afterwards, and when the backup and the package installation went through, what
  is rolled back is the failure of \<open>updateTsConfig\<close>. (The package manager is taken not to
  create a \<open>tsconfig.json\<close>.)
\<close>

theorem missing_tsconfig_rolls_back:
  assumes enter: "validate_project E options True s0 = Inr s1"
      and "\<not> dryRun options" and "answer_confirmInstall E"
      and absent: "\<not> fileExists s0 ''tsconfig.json''"
      and pm: "package_manager_keeps E (cwd s0) ''tsconfig.json''"
  shows "updateTsConfig E s0 = (Some (Error ''tsconfig.json not found''), s0)
         \<and> (\<exists>s'. installCommand E options s0 = (Exited 1, s')
                \<and> \<not> fileExists s' ''tsconfig.json''
                \<and> (\<forall>b\<in>set (backups s'). originalPath b \<noteq> ''tsconfig.json'')
                \<and> (\<forall>s2 s3. create_backup E True (s1\<lparr>backups := []\<rparr>) = (None, s2)
                      \<longrightarrow> install_packages E True s2 = (None, s3)
                      \<longrightarrow> s' = rollback E True (Error ''tsconfig.json not found'')
                                (print (SpinnerStart ''Updating TypeScript configuration...'') s3)))"
proof
  show "updateTsConfig E s0 = (Some (Error ''tsconfig.json not found''), s0)"
    using absent by (rule updateTsConfig_missing)
next
  let ?c = "cwd s0" and ?s = "s1\<lparr>backups := []\<rparr>"
  have s1: "cwd s1 = ?c" "files s1 = files s0"
    using enter
    by (auto simp: validate_project_def Let_def print_def prints_def split: if_splits)
  have a: "files ?s (below ?c ''tsconfig.json'') = None"
    using absent s1 by (simp add: fileExists_def resolve_def)
  obtain e s2 where run: "install_steps E ?s = (Some e, s2)" and c2: "cwd s2 = ?c"
    and f2: "files s2 (below ?c ''tsconfig.json'') = None"
    and b2: "\<forall>b\<in>set (backups s2). originalPath b \<noteq> ''tsconfig.json''"
    and why: "\<forall>t1 t2. create_backup E True ?s = (None, t1)
                 \<longrightarrow> install_packages E True t1 = (None, t2)
                 \<longrightarrow> e = Error ''tsconfig.json not found''
                     \<and> s2 = print (SpinnerStart ''Updating TypeScript configuration...'') t2"
    using install_steps_without_tsconfig[of ?s ?c E] s1 a pm by auto
  have r: "files (rollback E True e s2) (below ?c ''tsconfig.json'') = None
         \<and> cwd (rollback E True e s2) = ?c \<and> backups (rollback E True e s2) = backups s2"
    using rollback_other[OF b2 c2, of E True e] f2 by simp
  have out: "installCommand E options s0 = (Exited 1, rollback E True e s2)"
    using enter assms(2,3) run by (simp add: installCommand_def)
  show "\<exists>s'. installCommand E options s0 = (Exited 1, s')
                \<and> \<not> fileExists s' ''tsconfig.json''
                \<and> (\<forall>b\<in>set (backups s'). originalPath b \<noteq> ''tsconfig.json'')
                \<and> (\<forall>s2 s3. create_backup E True (s1\<lparr>backups := []\<rparr>) = (None, s2)
                      \<longrightarrow> install_packages E True s2 = (None, s3)
                      \<longrightarrow> s' = rollback E True (Error ''tsconfig.json not found'')
                                (print (SpinnerStart ''Updating TypeScript configuration...'') s3))"
    using out r b2 why by (auto simp: fileExists_def resolve_def)
qed

theorem missing_tsconfig_rolls_back_witness:
  "validate_project sample_env plain_options True project_without_tsconfig
     = Inr (prints [Log ''Next.js project detected!'', Log ''Using package manager: npm'']
             (print (Log ''Checking Next.js project...'') project_without_tsconfig))
   \<and> \<not> dryRun plain_options \<and> answer_confirmInstall sample_env
   \<and> \<not> fileExists project_without_tsconfig ''tsconfig.json''
   \<and> package_manager_keeps sample_env (cwd project_without_tsconfig) ''tsconfig.json''
   \<and> updateTsConfig sample_env project_without_tsconfig
     = (Some (Error ''tsconfig.json not found''), project_without_tsconfig)
   \<and> fst (installCommand sample_env plain_options project_without_tsconfig) = Exited 1
   \<and> \<not> fileExists (snd (installCommand sample_env plain_options project_without_tsconfig))
         ''tsconfig.json''"
proof -
  have h1: "validate_project sample_env plain_options True project_without_tsconfig
     = Inr (prints [Log ''Next.js project detected!'', Log ''Using package manager: npm'']
             (print (Log ''Checking Next.js project...'') project_without_tsconfig))"
    by (simp add: validate_project_def io_defs sample_defs)
  have h2: "\<not> dryRun plain_options" by (simp add: plain_options_def)
  have h3: "answer_confirmInstall sample_env" by (simp add: sample_env_def)
  have h4: "\<not> fileExists project_without_tsconfig ''tsconfig.json''"
    by (simp add: io_defs sample_defs)
  have h5: "package_manager_keeps sample_env (cwd project_without_tsconfig) ''tsconfig.json''"
    by (simp add: package_manager_keeps_def sample_env_def)
  from missing_tsconfig_rolls_back [OF h1 h2 h3 h4 h5] h1 h2 h3 h4 h5
  show ?thesis by auto
qed

subsection \<open>Backup and rollback\<close>

lemma create_backup_entries:
  assumes "cwd s = c" and "backups s = []"
      and "f = ''package.json'' \<or> f = ''tsconfig.json''"
      and "files s (below c f) = Some bytes"
      and "create_backup E sp s = (r, s')"
  shows "cwd s' = c \<and> files s' (below c f) = Some bytes
         \<and> list_all install_entry (backups s')
         \<and> (f \<in> originalPath ` set (backups s')
              \<longrightarrow> files s' (below c (backup_path_of f)) = Some bytes)
         \<and> (r = None \<longrightarrow> f \<in> originalPath ` set (backups s'))"
  using assms
  by (auto simp: create_backup_def backup_files_def fileExists_def resolve_def
        progress_start_def progress_succeed_def emit_def print_def ensureBackupDir_def
        raise_at_def backupFile_def backup_path_of_def backup_area_def install_entry_def
      split: option.splits if_splits)

lemma keeps_mutations:
  assumes "package_manager_keeps E c (backup_path_of f)"
      and "f = ''package.json'' \<or> f = ''tsconfig.json''"
  shows "keeps c (backup_path_of f)
           (seq [install_packages E sp, update_typescript E sp, add_scripts E sp,
                 create_files E sp, completed])"
proof (rule keeps_seq)
  fix st
  assume "st \<in> set [install_packages E sp, update_typescript E sp, add_scripts E sp,
                     create_files E sp, completed]"
  moreover have "backup_path_of f \<noteq> ''tsconfig.json''" "backup_path_of f \<noteq> ''package.json''"
    "backup_path_of f \<noteq> ''tx3/trix.toml''" "backup_path_of f \<noteq> ''tx3/main.tx3''"
    "backup_path_of f \<noteq> ''scripts/generate-tx3.mjs''"
    by (simp_all add: backup_path_of_def backup_area_def)
  ultimately show "keeps c (backup_path_of f) st"
    using assms(1)
    by (auto simp: keeps_install_packages keeps_update_typescript keeps_add_scripts
          keeps_create_files keeps_completed)
qed

lemma restoreFromBackup_frame:
  assumes "restoreFromBackup E b s = (r, s')"
  shows "cwd s' = cwd s \<and> backups s' = backups s
         \<and> (\<forall>q. q \<noteq> resolve s (originalPath b) \<longrightarrow> files s' q = files s q)
         \<and> (r \<noteq> None \<longrightarrow> s' = s)"
  using assms by (auto simp: restoreFromBackup_def split: option.splits if_splits)

lemma restoreFromBackup_works:
  assumes "fails E (RestoreFromBackup (originalPath b)) = None" and "existedBefore b"
      and "files s (resolve s (backupPath b)) = Some bytes"
  shows "restoreFromBackup E b s
         = (None, s\<lparr>files := (files s)(resolve s (originalPath b) \<mapsto> bytes)\<rparr>)"
  using assms by (simp add: restoreFromBackup_def)

lemma restore_all_restores:
  assumes "cwd s = c" and "list_all install_entry bs"
      and "f = ''package.json'' \<or> f = ''tsconfig.json''"
      and "fails E (RestoreFromBackup f) = None"
      and "f \<in> originalPath ` set bs \<longrightarrow> files s (below c (backup_path_of f)) = Some bytes"
      and "f \<notin> originalPath ` set bs \<longrightarrow> files s (below c f) = Some bytes"
  shows "files (restore_all E bs s) (below c f) = Some bytes"
  using assms
proof (induction bs arbitrary: s)
  case Nil
  then show ?case by simp
next
  case (Cons b bs)
  from Cons.prems(2) have eb: "install_entry b" and rest: "list_all install_entry bs" by simp_all
  have ne: "below c (backup_path_of f) \<noteq> below c g" if "g = ''package.json'' \<or> g = ''tsconfig.json''" for g
    using that Cons.prems(3) by (auto simp: backup_path_of_def backup_area_def)
  show ?case
  proof (cases "originalPath b = f")
    case True
    have bk: "files s (resolve s (backupPath b)) = Some bytes"
      using True eb Cons.prems(1,5) by (simp add: install_entry_def resolve_def)
    have r: "restoreFromBackup E b s
             = (None, s\<lparr>files := (files s)(resolve s (originalPath b) \<mapsto> bytes)\<rparr>)"
      using Cons.prems(4) True eb bk
      by (intro restoreFromBackup_works) (simp_all add: install_entry_def)
    let ?s1 = "s\<lparr>files := (files s)(resolve s (originalPath b) \<mapsto> bytes)\<rparr>"
    have "files (restore_all E bs ?s1) (below c f) = Some bytes"
    proof (rule Cons.IH)
      show "cwd ?s1 = c" using Cons.prems(1) by simp
      show "list_all install_entry bs" by (rule rest)
      show "f = ''package.json'' \<or> f = ''tsconfig.json''" by (rule Cons.prems(3))
      show "fails E (RestoreFromBackup f) = None" by (rule Cons.prems(4))
      show "f \<in> originalPath ` set bs \<longrightarrow> files ?s1 (below c (backup_path_of f)) = Some bytes"
        using Cons.prems(1,3,5) True ne[of f] by (simp add: resolve_def)
      show "f \<notin> originalPath ` set bs \<longrightarrow> files ?s1 (below c f) = Some bytes"
        using Cons.prems(1) True by (simp add: resolve_def)
    qed
    with r show ?thesis by simp
  next
    case False
    obtain r s1 where r: "restoreFromBackup E b s = (r, s1)"
      by (cases "restoreFromBackup E b s")
    note fr = restoreFromBackup_frame[OF r]
    have og: "originalPath b = ''package.json'' \<or> originalPath b = ''tsconfig.json''"
      using eb by (simp add: install_entry_def)
    have q1: "below c f \<noteq> resolve s (originalPath b)"
      using False Cons.prems(1) by (simp add: resolve_def)
    have q2: "below c (backup_path_of f) \<noteq> resolve s (originalPath b)"
      using ne[OF og] Cons.prems(1) by (simp add: resolve_def)
    have same: "files s1 (below c f) = files s (below c f)"
      "files s1 (below c (backup_path_of f)) = files s (below c (backup_path_of f))"
      "cwd s1 = c"
      using fr q1 q2 Cons.prems(1) by simp_all
    have mem: "f \<in> originalPath ` set (b # bs) \<longleftrightarrow> f \<in> originalPath ` set bs"
      using False by auto
    have step: "files (restore_all E bs t) (below c f) = Some bytes"
      if "cwd t = c" "files t (below c f) = files s (below c f)"
         "files t (below c (backup_path_of f)) = files s (below c (backup_path_of f))" for t
    proof (rule Cons.IH)
      show "cwd t = c" by (rule that)
      show "list_all install_entry bs" by (rule rest)
      show "f = ''package.json'' \<or> f = ''tsconfig.json''" by (rule Cons.prems(3))
      show "fails E (RestoreFromBackup f) = None" by (rule Cons.prems(4))
      show "f \<in> originalPath ` set bs \<longrightarrow> files t (below c (backup_path_of f)) = Some bytes"
        using that Cons.prems(5) False by auto
      show "f \<notin> originalPath ` set bs \<longrightarrow> files t (below c f) = Some bytes"
        using that Cons.prems(6) False by auto
    qed
    show ?thesis
    proof (cases r)
      case None
      with r step[of s1] same show ?thesis by simp
    next
      case (Some e)
      let ?t = "print (LogError (''Failed to restore '' @ originalPath b @ '': '' @ error_string e)) s1"
      have "files (restore_all E bs ?t) (below c f) = Some bytes"
        by (rule step) (use same in \<open>simp_all add: print_def\<close>)
      with r Some show ?thesis by simp
    qed
  qed
qed

lemma rollback_restores:
  assumes "cwd s = c" and "list_all install_entry (backups s)"
      and "f = ''package.json'' \<or> f = ''tsconfig.json''"
      and "fails E (RestoreFromBackup f) = None"
      and "f \<in> originalPath ` set (backups s)
           \<longrightarrow> files s (below c (backup_path_of f)) = Some bytes"
      and "f \<notin> originalPath ` set (backups s) \<longrightarrow> files s (below c f) = Some bytes"
  shows "files (rollback E sp e s) (below c f) = Some bytes"
proof -
  let ?s3 = "print (Log ''Rolling back changes...'')
              (print (LogError (''Error: '' @ message e))
                (progress_fail sp ''Installation failed'' s))"
  have s3: "backups ?s3 = backups s" "cwd ?s3 = c" "files ?s3 = files s"
    using assms(1) by (simp_all add: print_def progress_fail_def)
  have "files (restore_all E (backups ?s3) ?s3) (below c f) = Some bytes"
    by (rule restore_all_restores) (use assms s3 in simp_all)
  then show ?thesis
    by (simp add: rollback_def Let_def print_def)
qed

lemma validate_project_continues:
  assumes "validate_project E options a s0 = Inr s1"
  shows "cwd s1 = cwd s0 \<and> files s1 = files s0 \<and> dirs s1 = dirs s0"
  using assms
  by (auto simp: validate_project_def Let_def print_def prints_def split: if_splits)

lemma validate_project_ends:
  assumes "validate_project E options a s0 = Inl (out, s1)"
  shows "out = Returned \<or> out = Thrown (Error ''Project validation failed'')"
  using assms
  by (auto simp: validate_project_def Let_def split: if_splits)

lemma installCommand_exits:
  assumes "installCommand E options s0 = (Exited n, s')"
  obtains s1 e s2 where "validate_project E options True s0 = Inr s1"
    and "install_steps E (s1\<lparr>backups := []\<rparr>) = (Some e, s2)"
    and "s' = rollback E True e s2" and "n = 1"
proof (cases "validate_project E options True s0")
  case (Inl ended)
  then obtain out s1 where "validate_project E options True s0 = Inl (out, s1)"
    by (cases ended) auto
  with assms validate_project_ends[OF this] show ?thesis
    by (auto simp: installCommand_def)
next
  case (Inr s1)
  with assms that show ?thesis
    by (auto simp: installCommand_def split: if_splits prod.splits option.splits)
qed

lemma install_steps_invariant:
  assumes c: "cwd s = c" and "backups s = []"
      and f: "f = ''package.json'' \<or> f = ''tsconfig.json''"
      and "files s (below c f) = Some bytes"
      and pm: "package_manager_keeps E c (backup_path_of f)"
      and run: "install_steps E s = (r, s2)"
  shows "cwd s2 = c \<and> list_all install_entry (backups s2)
         \<and> (f \<in> originalPath ` set (backups s2)
              \<longrightarrow> files s2 (below c (backup_path_of f)) = Some bytes)
         \<and> (f \<notin> originalPath ` set (backups s2) \<longrightarrow> files s2 (below c f) = Some bytes)"
proof -
  let ?rest = "seq [install_packages E True, update_typescript E True, add_scripts E True,
                    create_files E True, completed]"
  obtain r1 t1 where b: "create_backup E True s = (r1, t1)"
    by (cases "create_backup E True s")
  note i1 = create_backup_entries[OF c assms(2) f assms(4) b]
  show ?thesis
  proof (cases r1)
    case (Some e1)
    with b run have "s2 = t1" by (simp add: install_steps_def)
    with i1 show ?thesis by blast
  next
    case None
    with b run have rest: "?rest t1 = (r, s2)" by (simp add: install_steps_def)
    have k: "keeps c (backup_path_of f) ?rest" using pm f by (rule keeps_mutations)
    from i1 have c1: "cwd t1 = c" by blast
    note k2 = keepsD[OF k c1 rest]
    from i1 None have "f \<in> originalPath ` set (backups t1)"
      "files t1 (below c (backup_path_of f)) = Some bytes" by blast+
    with k2 i1 c1 show ?thesis by (simp add: resolve_def)
  qed
qed

lemma install_entry_other:
  "list_all install_entry bs \<Longrightarrow> p \<noteq> ''package.json'' \<Longrightarrow> p \<noteq> ''tsconfig.json''
   \<Longrightarrow> \<forall>b\<in>set bs. originalPath b \<noteq> p"
  by (auto simp: list_all_iff install_entry_def)

text \<open>
  C1, as amended. When a run of \<open>installCommand\<close> ends in \<open>process.exit\<close>, it has
  failed inside the \<open>try\<close> block and the \<open>catch\<close> block has restored every entry of
  \<open>backups\<close>: each of \<open>package.json\<close> and \<open>tsconfig.json\<close> that existed before the run
  has its bytes of before the run again, provided its own restore does not fail (and the
  package manager has not touched its copy in the backup area). Every other path is left
  by the rollback as the failed \<open>try\<close> block left it.
\<close>

theorem rollback_restores_backed_up_files:
  assumes run: "installCommand E options s0 = (Exited n, s')"
      and f: "f = ''package.json'' \<or> f = ''tsconfig.json''"
      and bytes: "files s0 (resolve s0 f) = Some bytes"
      and restore: "fails E (RestoreFromBackup f) = None"
      and pm: "package_manager_keeps E (cwd s0) (backup_path_of f)"
  shows "files s' (resolve s0 f) = Some bytes
         \<and> (\<exists>s1 e s2. validate_project E options True s0 = Inr s1
               \<and> install_steps E (s1\<lparr>backups := []\<rparr>) = (Some e, s2)
               \<and> s' = rollback E True e s2
               \<and> (\<forall>p. p \<noteq> ''package.json'' \<and> p \<noteq> ''tsconfig.json''
                      \<longrightarrow> files s' (resolve s0 p) = files s2 (resolve s0 p)))"
proof -
  let ?c = "cwd s0"
  from run obtain s1 e s2 where
    v: "validate_project E options True s0 = Inr s1"
    and steps: "install_steps E (s1\<lparr>backups := []\<rparr>) = (Some e, s2)"
    and s': "s' = rollback E True e s2"
    by (rule installCommand_exits)
  note s1 = validate_project_continues[OF v]
  have inv: "cwd s2 = ?c \<and> list_all install_entry (backups s2)
         \<and> (f \<in> originalPath ` set (backups s2)
              \<longrightarrow> files s2 (below ?c (backup_path_of f)) = Some bytes)
         \<and> (f \<notin> originalPath ` set (backups s2) \<longrightarrow> files s2 (below ?c f) = Some bytes)"
  proof (rule install_steps_invariant[OF _ _ f _ pm steps])
    show "cwd (s1\<lparr>backups := []\<rparr>) = ?c" using s1 by simp
    show "backups (s1\<lparr>backups := []\<rparr>) = []" by simp
    show "files (s1\<lparr>backups := []\<rparr>) (below ?c f) = Some bytes"
      using s1 bytes by (simp add: resolve_def)
  qed
  have "files (rollback E True e s2) (below ?c f) = Some bytes"
    using inv f restore by (intro rollback_restores) blast+
  then have a: "files s' (resolve s0 f) = Some bytes"
    by (simp add: s' resolve_def)
  have b: "files s' (resolve s0 p) = files s2 (resolve s0 p)"
    if "p \<noteq> ''package.json'' \<and> p \<noteq> ''tsconfig.json''" for p
  proof -
    have "\<forall>b\<in>set (backups s2). originalPath b \<noteq> p"
      using inv that by (intro install_entry_other) blast+
    then show ?thesis
      using rollback_other[of s2 p ?c E True e] inv by (simp add: s' resolve_def)
  qed
  from a b v steps s' show ?thesis by blast
qed


lemma sample_tsconfig_text:
  "tsconfig_text sample_JSON_parse ''{}'' = Inr (JSON_stringify empty_merged)"
  by (simp add: tsconfig_text_def sample_parse_empty empty_merge bind_err_def)

lemma failing_run_exits:
  "fst (installCommand failing_env plain_options sample_state) = Exited 1"
  by (simp add: io_defs install_defs sample_defs failing_env_def Let_def sample_tsconfig_text)

theorem rollback_restores_backed_up_files_witness:
  "installCommand failing_env plain_options sample_state
     = (Exited 1, snd (installCommand failing_env plain_options sample_state))
   \<and> files sample_state (resolve sample_state ''package.json'') = Some ''{}''
   \<and> fails failing_env (RestoreFromBackup ''package.json'') = None
   \<and> package_manager_keeps failing_env (cwd sample_state) (backup_path_of ''package.json'')
   \<and> files (snd (installCommand failing_env plain_options sample_state))
         (resolve sample_state ''package.json'') = Some ''{}''"
proof -
  have h1: "installCommand failing_env plain_options sample_state
            = (Exited 1, snd (installCommand failing_env plain_options sample_state))"
    using failing_run_exits by (simp add: prod_eq_iff)
  have h2: "''package.json'' = ''package.json'' \<or> ''package.json'' = ''tsconfig.json''"
    by simp
  have h3: "files sample_state (resolve sample_state ''package.json'') = Some ''{}''"
    by (simp add: io_defs sample_defs)
  have h4: "fails failing_env (RestoreFromBackup ''package.json'') = None"
    by (simp add: failing_env_def fail_at_def)
  have h5: "package_manager_keeps failing_env (cwd sample_state)
              (backup_path_of ''package.json'')"
    by (simp add: package_manager_keeps_def failing_env_def sample_env_def)
  from rollback_restores_backed_up_files [OF h1 h2 h3 h4 h5] h1 h3 h4 h5
  show ?thesis by blast
qed

text \<open>
  The claim as written also has the rollback remove the files that earlier steps of the
  run created. In the sample project, with the write of \<open>tx3/main.tx3\<close> failing, the run
  ends in the rollback and \<open>tx3/trix.toml\<close>, which was not there before and was written
  just before the failure, is still there afterwards: \<open>backups\<close> only ever holds
  \<open>package.json\<close> and \<open>tsconfig.json\<close>.
\<close>

theorem created_files_survive_rollback_counterexample:
  "fst (installCommand failing_env plain_options sample_state) = Exited 1
   \<and> files sample_state ''tx3/trix.toml'' = None
   \<and> files (snd (installCommand failing_env plain_options sample_state)) ''tx3/trix.toml''
     = Some ''[protocol]''"
  by (simp add: io_defs install_defs sample_defs failing_env_def Let_def sample_tsconfig_text)

section \<open>The steps whose failure is caught\<close>

subsection \<open>The console only grows\<close>

lemma appendsI: "(\<And>s. prefix (console s) (console (snd (st s)))) \<Longrightarrow> appends st"
  by (simp add: appends_def)

lemma appendsD: "appends st \<Longrightarrow> st s = (r, s') \<Longrightarrow> prefix (console s) (console s')"
  unfolding appends_def by (metis snd_conv)

lemma appends_seq:
  assumes "\<And>st. st \<in> set sts \<Longrightarrow> appends st"
  shows "appends (seq sts)"
  using assms
proof (induction sts)
  case Nil
  show ?case by (rule appendsI) simp
next
  case (Cons st sts)
  have a1: "appends st" and a2: "appends (seq sts)" using Cons by simp_all
  show ?case
  proof (rule appendsI)
    fix s
    obtain r s1 where st: "st s = (r, s1)" by (cases "st s")
    obtain r2 s2 where sq: "seq sts s1 = (r2, s2)" by (cases "seq sts s1")
    have "prefix (console s) (console s1)" using a1 st by (rule appendsD)
    moreover have "prefix (console s1) (console s2)" using a2 sq by (rule appendsD)
    ultimately show "prefix (console s) (console (snd (seq (st # sts) s)))"
      using st sq by (cases r) (auto intro: prefix_order.trans)
  qed
qed

lemma appends_try_catch:
  assumes "appends body" and "\<And>e. appends (handler e)"
  shows "appends (try_catch body handler)"
proof (rule appendsI)
  fix s
  obtain r s1 where b: "body s = (r, s1)" by (cases "body s")
  have p1: "prefix (console s) (console s1)" using assms(1) b by (rule appendsD)
  show "prefix (console s) (console (snd (try_catch body handler s)))"
  proof (cases r)
    case None
    with b p1 show ?thesis by (simp add: try_catch_def)
  next
    case (Some e)
    obtain r2 s2 where h: "handler e s1 = (r2, s2)" by (cases "handler e s1")
    have "prefix (console s1) (console s2)" using assms(2) h by (rule appendsD)
    with p1 b Some h show ?thesis by (auto simp: try_catch_def intro: prefix_order.trans)
  qed
qed

lemma appends_emit: "appends (emit e)"
  by (rule appendsI) (simp add: emit_def print_def)

lemma appends_skip: "appends skip"
  by (rule appendsI) (simp add: skip_def)

lemma appends_progress:
  "appends (progress_start sp t)" "appends (progress_succeed sp t)"
  "appends (progress_warn sp t)"
  by (simp_all add: progress_start_def progress_succeed_def progress_warn_def appends_emit)

lemma appends_raise_at:
  "(\<And>s. console (effect s) = console s) \<Longrightarrow> appends (raise_at E site effect)"
  by (rule appendsI) (simp add: raise_at_def split: option.splits)

lemma appends_completed: "appends completed"
  by (rule appendsI) (simp add: completed_def prints_def)

lemma appends_copyDevnetFolder: "appends (copyDevnetFolder E d)"
  unfolding copyDevnetFolder_def by (rule appends_raise_at) simp

lemma appends_add_devnet_script: "appends (add_devnet_script E)"
  by (rule appendsI) (simp add: add_devnet_script_def raise_at_def split: option.splits)

lemma appends_setupDevnet: "appends (setupDevnet E)"
  unfolding setupDevnet_def
  by (intro appends_try_catch appends_seq)
     (auto simp: appends_copyDevnetFolder appends_add_devnet_script intro: appendsI)

lemma appends_setup_devnet: "appends (setup_devnet E sp)"
  unfolding setup_devnet_def
  by (intro appends_seq)
     (auto simp: appends_progress appends_setupDevnet
           intro!: appends_try_catch appends_seq)

subsection \<open>The two steps whose failure is caught\<close>

lemma install_trix_succeeds:
  "fails E InstallTrix = None
   \<Longrightarrow> install_trix E sp s
       = (None,
          prints [if sp then SpinnerStart ''Installing trix via tx3up...''
                  else Log ''Installing trix via tx3up...'',
                  if sp then SpinnerSucceed ''trix installed successfully''
                  else Log ''trix installed successfully''] s)"
  by (simp add: install_trix_def try_catch_def TrixInstaller_installTrix_def raise_at_def
        progress_start_def progress_succeed_def progress_warn_def emit_def print_def prints_def)

lemma install_trix_fails:
  "fails E InstallTrix \<noteq> None
   \<Longrightarrow> install_trix E sp s
       = (None,
          prints [if sp then SpinnerStart ''Installing trix via tx3up...''
                  else Log ''Installing trix via tx3up...'',
                  if sp
                  then SpinnerWarn ''trix installation failed, but continuing with TX3 setup''
                  else Log ''trix installation failed, but continuing with TX3 setup'',
                  Log ''You can install trix manually later with: curl --proto '=https' --tlsv1.2 -LsSf https://github.com/tx3-lang/up/releases/latest/download/tx3up-installer.sh | sh && tx3up''] s)"
  by (cases "fails E InstallTrix")
     (simp_all add: install_trix_def try_catch_def TrixInstaller_installTrix_def raise_at_def
        progress_start_def progress_succeed_def progress_warn_def emit_def print_def prints_def)

lemma appends_backup_loop: "appends (backup_loop E fs)"
proof (rule appendsI)
  fix s
  show "prefix (console s) (console (snd (backup_loop E fs s)))"
  proof (induction fs arbitrary: s)
    case Nil
    show ?case by simp
  next
    case (Cons f fs)
    show ?case
    proof (cases "backupFile E f s")
      case (Pair r s1)
      have c: "console s1 = console s"
        using Pair by (auto simp: backupFile_def split: option.splits)
      show ?thesis
      proof (cases r)
        case (Inl e)
        with Pair c show ?thesis by simp
      next
        case (Inr entry)
        have "prefix (console (s1\<lparr>backups := backups s1 @ [entry]\<rparr>))
                (console (snd (backup_loop E fs (s1\<lparr>backups := backups s1 @ [entry]\<rparr>))))"
          by (rule Cons.IH)
        with Pair Inr c show ?thesis by simp
      qed
    qed
  qed
qed

lemma appends_create_backup: "appends (create_backup E sp)"
  unfolding create_backup_def
proof (rule appends_seq)
  fix st
  assume "st \<in> set [progress_start sp ''Creating backup...'', ensureBackupDir E, backup_files E,
                     progress_succeed sp ''Backup created'']"
  moreover have "appends (ensureBackupDir E)"
    unfolding ensureBackupDir_def by (rule appends_raise_at) simp
  moreover have "appends (backup_files E)"
    using appends_backup_loop unfolding appends_def backup_files_def Let_def by blast
  ultimately show "appends st" by (auto simp: appends_progress)
qed

lemma appends_installPackages: "appends (installPackages E pkgs dev)"
  by (rule appendsI) (simp add: installPackages_def)

lemma appends_install_missing: "appends (install_missing E)"
proof (rule appendsI)
  fix s
  let ?sq = "seq [if getMissingPackages E s requiredPackages \<noteq> []
            then installPackages E (getMissingPackages E s requiredPackages) False else skip,
            if getMissingPackages E s requiredDevPackages \<noteq> []
            then installPackages E (getMissingPackages E s requiredDevPackages) True
            else skip]"
  have "appends ?sq"
    by (rule appends_seq) (auto simp: appends_installPackages appends_skip)
  then have *: "prefix (console s) (console (snd (?sq s)))"
    unfolding appends_def by blast
  from install_missing_cases[of E s]
  show "prefix (console s) (console (snd (install_missing E s)))"
    using * by (elim disjE exE) (simp_all del: seq.simps)
qed

lemma appends_install_packages: "appends (install_packages E sp)"
  unfolding install_packages_def
  by (rule appends_seq) (auto simp: appends_progress appends_install_missing)

lemma appends_writeFile: "appends (writeFile E p c)"
  unfolding writeFile_def by (rule appends_raise_at) simp

lemma appends_createDirectory: "appends (createDirectory E p)"
  unfolding createDirectory_def by (rule appends_raise_at) simp

lemma appends_updateTsConfig: "appends (updateTsConfig E)"
  by (rule appendsI)
     (simp add: updateTsConfig_def writeFile_def raise_at_def split: option.splits sum.splits)

lemma appends_update_typescript: "appends (update_typescript E sp)"
  unfolding update_typescript_def
  by (rule appends_seq) (auto simp: appends_progress appends_updateTsConfig)

lemma appends_write_scripts: "appends (write_scripts E)"
  by (rule appendsI)
     (simp add: write_scripts_def writePackageJson_def raise_at_def
        split: option.splits sum.splits)

lemma appends_add_scripts: "appends (add_scripts E sp)"
  unfolding add_scripts_def
  by (rule appends_seq) (auto simp: appends_progress appends_write_scripts)

lemma appends_create_files: "appends (create_files E sp)"
  unfolding create_files_def createTx3Files_def
  by (intro appends_seq)
     (auto simp: appends_progress appends_writeFile appends_createDirectory
           intro!: appends_seq)

lemma appends_critical_steps: "appends (critical_steps E sp)"
  unfolding critical_steps_def
  by (rule appends_seq)
     (auto simp: appends_create_backup appends_install_packages appends_update_typescript
        appends_add_scripts appends_create_files)

lemma setup_devnet_unfold:
  "setup_devnet E sp s
   = (case setupDevnet E (print (if sp then SpinnerStart ''Setting up devnet configuration...''
                                 else Log ''Setting up devnet configuration...'') s) of
        (None, t) \<Rightarrow>
          (None, print (if sp then SpinnerSucceed ''Devnet configuration created''
                        else Log ''Devnet configuration created'') t)
      | (Some e, t) \<Rightarrow>
          (None, print (if sp
                        then SpinnerWarn ''Devnet setup failed, but continuing with installation''
                        else Log ''Devnet setup failed, but continuing with installation'') t))"
  by (simp add: setup_devnet_def try_catch_def progress_start_def progress_succeed_def
        progress_warn_def emit_def split: prod.splits option.splits)

lemma setupDevnet_backups: "backups (snd (setupDevnet E s)) = backups s"
  by (auto simp: setupDevnet_def try_catch_def copyDevnetFolder_def add_devnet_script_def
        raise_at_def split: option.splits prod.splits if_splits)

lemma setup_devnet_result:
  "fst (setup_devnet E sp s) = None
   \<and> backups (snd (setup_devnet E sp s)) = backups s
   \<and> (fst (setupDevnet E (print (if sp then SpinnerStart ''Setting up devnet configuration...''
                                   else Log ''Setting up devnet configuration...'') s))
        \<noteq> None
       \<longrightarrow> (if sp then SpinnerWarn ''Devnet setup failed, but continuing with installation''
            else Log ''Devnet setup failed, but continuing with installation'')
           \<in> set (console (snd (setup_devnet E sp s))))"
proof -
  let ?s1 = "print (if sp then SpinnerStart ''Setting up devnet configuration...''
                    else Log ''Setting up devnet configuration...'') s"
  obtain r t where d: "setupDevnet E ?s1 = (r, t)" by (cases "setupDevnet E ?s1")
  have "backups t = backups ?s1"
    using setupDevnet_backups[of E ?s1] d by simp
  then have bt: "backups t = backups s" by (simp add: print_def)
  show ?thesis
    unfolding setup_devnet_unfold d using bt
    by (cases r) (simp_all add: print_def)
qed

lemma copy_failure_fails_setupDevnet:
  "fails E CopyDevnetFolder \<noteq> None \<Longrightarrow> fst (setupDevnet E s) \<noteq> None"
  by (auto simp: setupDevnet_def try_catch_def copyDevnetFolder_def raise_at_def)

lemma prefix_mem: "prefix xs ys \<Longrightarrow> x \<in> set xs \<Longrightarrow> x \<in> set ys"
  by (auto simp: prefix_def)

text \<open>
  C6. In the \<open>try\<close> statement of the later revision, the installation of trix and the
  devnet setup cannot make the run fail: whenever the steps between them (backup,
  packages, TypeScript configuration, scripts, files) go through after the attempt to
  install trix, the statement returns normally, so the command ends with status 0 and
  the \<open>catch\<close> block with its rollback does not run; the state is the one the body left,
  with the backups as the critical steps left them. A failure of tx3up, and a failure of
  the copy of the devnet bundle, each leave their warning on the console.
\<close>

theorem best_effort_failures_do_not_fail_the_run:
  assumes crit: "critical_steps E spinner
                   (snd ((if installTrix then install_trix E spinner else skip) s)) = (None, s2)"
  shows "\<exists>s'. try_install_v2 E spinner installTrix includeDevnet s = (Returned, s')
           \<and> exit_code (fst (try_install_v2 E spinner installTrix includeDevnet s)) = 0
           \<and> install_steps_v2 E spinner installTrix includeDevnet s = (None, s')
           \<and> backups s' = backups s2
           \<and> (installTrix \<and> fails E InstallTrix \<noteq> None
                \<longrightarrow> (if spinner
                     then SpinnerWarn ''trix installation failed, but continuing with TX3 setup''
                     else Log ''trix installation failed, but continuing with TX3 setup'')
                    \<in> set (console s'))
           \<and> (includeDevnet \<and> fails E CopyDevnetFolder \<noteq> None
                \<longrightarrow> (if spinner
                     then SpinnerWarn ''Devnet setup failed, but continuing with installation''
                     else Log ''Devnet setup failed, but continuing with installation'')
                    \<in> set (console s'))"
proof -
  let ?trix = "if installTrix then install_trix E spinner else skip"
  let ?devnet = "if includeDevnet then setup_devnet E spinner else skip"
  let ?w1 = "if spinner
             then SpinnerWarn ''trix installation failed, but continuing with TX3 setup''
             else Log ''trix installation failed, but continuing with TX3 setup''"
  let ?w2 = "if spinner
             then SpinnerWarn ''Devnet setup failed, but continuing with installation''
             else Log ''Devnet setup failed, but continuing with installation''"
  obtain s1 where t: "?trix s = (None, s1)"
    using install_trix_succeeds[of E spinner s] install_trix_fails[of E spinner s]
    by (cases installTrix; cases "fails E InstallTrix = None") (auto simp: skip_def)
  have w1: "?w1 \<in> set (console s1)" if "installTrix" "fails E InstallTrix \<noteq> None"
    using install_trix_fails[OF that(2), of spinner s] t that(1) by (auto simp: prints_def)
  from crit t have c: "critical_steps E spinner s1 = (None, s2)" by simp
  obtain s3 where d: "?devnet s2 = (None, s3)"
    using setup_devnet_result[of E spinner s2]
    by (cases includeDevnet) (auto simp: skip_def prod_eq_iff)
  have b3: "backups s3 = backups s2"
    using setup_devnet_result[of E spinner s2] d
    by (cases includeDevnet) (auto simp: skip_def)
  have w2: "?w2 \<in> set (console s3)" if "includeDevnet" "fails E CopyDevnetFolder \<noteq> None"
    using setup_devnet_result[of E spinner s2] d that(1)
      copy_failure_fails_setupDevnet[OF that(2)]
    by simp
  obtain s4 where f: "completed s3 = (None, s4)" "backups s4 = backups s3"
    by (simp add: completed_def prints_def)
  have p12: "prefix (console s1) (console s2)"
    using appends_critical_steps c by (rule appendsD)
  have p23: "prefix (console s2) (console s3)"
    using d appends_setup_devnet[of E spinner] appends_skip
    by (cases includeDevnet) (auto dest: appendsD)
  have p34: "prefix (console s3) (console s4)"
    using appends_completed f(1) by (rule appendsD)
  have body: "install_steps_v2 E spinner installTrix includeDevnet s = (None, s4)"
    using t c d f by (simp add: install_steps_v2_def)
  then have run: "try_install_v2 E spinner installTrix includeDevnet s = (Returned, s4)"
    by (simp add: try_install_v2_def)
  have "?w1 \<in> set (console s4)" if "installTrix \<and> fails E InstallTrix \<noteq> None"
    using w1 that p12 p23 p34 by (blast intro: prefix_mem)
  moreover have "?w2 \<in> set (console s4)" if "includeDevnet \<and> fails E CopyDevnetFolder \<noteq> None"
    using w2 that p34 by (blast intro: prefix_mem)
  ultimately show ?thesis
    using run body f(2) b3 by auto
qed

lemmas v2_defs =
  try_catch_def install_trix_def add_devnet_script_def setupDevnet_def setup_devnet_def
  critical_steps_def install_steps_v2_def try_install_v2_def showDryRunPreview_v2_def
  installCommand_v2_def offline_def offline_env_def

lemmas init_defs =
  mkdirSync_def run_shadcn_def initializeShadcnProject_def chdir_def cleanup_def
  init_failed_def initCommand_def registry_down_env_def app_options_def

lemma offline_critical_steps:
  "fst (critical_steps offline_env True (snd (install_trix offline_env True sample_state)))
   = None"
  by (simp add: io_defs install_defs sample_defs v2_defs Let_def sample_tsconfig_text)

theorem best_effort_failures_do_not_fail_the_run_witness:
  "critical_steps offline_env True
     (snd ((if True then install_trix offline_env True else skip) sample_state))
   = (None, snd (critical_steps offline_env True
                   (snd (install_trix offline_env True sample_state))))
   \<and> fails offline_env InstallTrix \<noteq> None \<and> fails offline_env CopyDevnetFolder \<noteq> None
   \<and> fst (try_install_v2 offline_env True True True sample_state) = Returned
   \<and> SpinnerWarn ''trix installation failed, but continuing with TX3 setup''
       \<in> set (console (snd (try_install_v2 offline_env True True True sample_state)))
   \<and> SpinnerWarn ''Devnet setup failed, but continuing with installation''
       \<in> set (console (snd (try_install_v2 offline_env True True True sample_state)))"
proof -
  have h: "critical_steps offline_env True
     (snd ((if True then install_trix offline_env True else skip) sample_state))
   = (None, snd (critical_steps offline_env True
                   (snd (install_trix offline_env True sample_state))))"
    using offline_critical_steps by (simp add: prod_eq_iff)
  have f: "fails offline_env InstallTrix \<noteq> None" "fails offline_env CopyDevnetFolder \<noteq> None"
    by (simp_all add: offline_env_def offline_def sample_env_def)
  from best_effort_failures_do_not_fail_the_run [OF h, of True] f h
  show ?thesis by auto
qed

lemma offline_install_returns:
  "fst (installCommand_v2 offline_env plain_options sample_state) = Returned"
  by (simp add: io_defs install_defs sample_defs v2_defs Let_def sample_tsconfig_text)


section \<open>Runs of \<open>initCommand\<close>\<close>

text \<open>
  C5. The claim asks that every failure after the target directory was created ends with
  the directory deleted. Here the scaffolding succeeds in an empty working directory and
  the package manager then fails inside \<open>installCommand\<close>: its \<open>catch\<close> block rolls back
  and calls \<open>process.exit(1)\<close> itself, so the \<open>catch\<close> block of \<open>initCommand\<close> with the
  cleanup never runs, and the directory \<open>app\<close> with the generated files is still there when
  the process ends.
\<close>

theorem initCommand_keeps_directory_when_install_exits:
  "''app'' \<notin> dirs empty_project
   \<and> fst (initCommand registry_down_env app_options empty_project) = Exited 1
   \<and> ''app'' \<in> dirs (snd (initCommand registry_down_env app_options empty_project))
   \<and> files (snd (initCommand registry_down_env app_options empty_project)) ''app/package.json''
     = Some ''{}''
   \<and> Log ''Cleaning up app...''
       \<notin> set (console (snd (initCommand registry_down_env app_options empty_project)))"
  by (simp add: io_defs install_defs sample_defs init_defs try_catch_def Let_def)

text \<open>
  The other parts of the claim hold: an existing target directory ends the command at
  once; the \<open>catch\<close> block always ends with status 1, reporting a cleanup that fails; and
  when it runs with the directory in sight, the directory and all below it are removed.
\<close>

lemma initCommand_existing_directory:
  assumes "directoryExists s name" and "projectName options = Some name" and "name \<noteq> []"
  shows "initCommand E options s
         = (Exited 1,
            prints [Log ''Initializing new Next.js project with TX3...'',
                    LogError (''Directory '' @ quoted name @ '' already exists'')] s)"
  using assms
  by (simp add: initCommand_def Let_def directoryExists_def resolve_def print_def prints_def)

lemma init_failed_exits:
  "fst (init_failed E p error s) = Exited 1"
  by (simp add: init_failed_def Let_def split: prod.splits option.splits)

lemma init_failed_reports_cleanup_failure:
  assumes "p \<noteq> []" and "directoryExists s p" and "fails E (RemoveDirectory p) = Some e"
  shows "init_failed E p error s
         = (Exited 1,
            prints [SpinnerFail ''Project initialization failed'',
                    LogError (''Error: '' @ message error),
                    Log (''Cleaning up '' @ p @ ''...''),
                    LogError (''Failed to cleanup: '' @ error_string e)] s)"
  using assms
  by (simp add: init_failed_def cleanup_def removeDirectory_def raise_at_def emit_def Let_def
        directoryExists_def resolve_def print_def prints_def)

lemma init_failed_removes_directory:
  assumes "p \<noteq> []" and "directoryExists s p" and "fails E (RemoveDirectory p) = None"
  shows "\<not> directoryExists (snd (init_failed E p error s)) p
         \<and> (\<forall>q. beneath (resolve s p) q \<longrightarrow> files (snd (init_failed E p error s)) q = None)"
  using assms
  by (simp add: init_failed_def cleanup_def removeDirectory_def raise_at_def emit_def Let_def
        directoryExists_def resolve_def print_def beneath_def)

end
